theory Spec2Isabelle
  imports Main
begin

section \<open>Space-delimited text field (pts/core/utils/__init__.py)\<close>

text \<open>
  Python strings are modelled as \<open>string\<close>; on such a value \<open>str\<close> is the identity, so
  \<open>map(str, value)\<close> is the list itself. \<open>delimiter.join\<close> is \<open>join\<close>.
\<close>

fun join :: "string \<Rightarrow> string list \<Rightarrow> string" where
  "join d [] = []"
| "join d [x] = x"
| "join d (x # y # ys) = x @ d @ join d (y # ys)"

text \<open>The characters at which \<open>split()\<close> without an argument cuts.\<close>

definition isspace :: "char \<Rightarrow> bool" where
  "isspace c \<longleftrightarrow> c \<in> {CHR '' '', CHR 0x09, CHR 0x0A, CHR 0x0B, CHR 0x0C, CHR 0x0D}"

text \<open>
  \<open>value.split()\<close>: a left-to-right scan that collects the maximal runs of
  non-whitespace characters; \<open>cur\<close> is the run being read, reversed.
\<close>

fun split_scan :: "string \<Rightarrow> string \<Rightarrow> string list" where
  "split_scan cur [] = (if cur = [] then [] else [rev cur])"
| "split_scan cur (c # cs) =
     (if isspace c then (if cur = [] then split_scan [] cs else rev cur # split_scan [] cs)
      else split_scan (c # cur) cs)"

definition split :: "string \<Rightarrow> string list" where
  "split s = split_scan [] s"

text \<open>The values a field can be given: \<open>None\<close>, a \<open>PrettyPrintList\<close>, a list or a string.\<close>

datatype field_value =
    PyNone
  | PrettyPrintList "string list"
  | PyList "string list"
  | PyStr string

text \<open>\<open>PrettyPrintList.__eq__(self, other)\<close>, with \<open>self._list\<close> as first argument.\<close>

fun pretty_print_list_eq :: "string list \<Rightarrow> field_value \<Rightarrow> bool" where
  "pretty_print_list_eq l (PrettyPrintList l') = (l = l')"
| "pretty_print_list_eq l (PyList l') = (l = l')"
| "pretty_print_list_eq l _ = False"

fun to_python :: "field_value \<Rightarrow> field_value" where
  "to_python PyNone = PyNone"
| "to_python (PrettyPrintList l) = PrettyPrintList l"
| "to_python (PyList l) = PrettyPrintList l"
| "to_python (PyStr s) = PrettyPrintList (split s)"

text \<open>
  \<open>get_prep_value\<close>: any iterable is joined with single spaces; iterating a string
  yields its characters.
\<close>

fun get_prep_value :: "field_value \<Rightarrow> field_value" where
  "get_prep_value PyNone = PyNone"
| "get_prep_value (PrettyPrintList l) = PyStr (join '' '' l)"
| "get_prep_value (PyList l) = PyStr (join '' '' l)"
| "get_prep_value (PyStr s) = PyStr (join '' '' (map (\<lambda>c. [c]) s))"

section \<open>Record store, events and task state (pts/core/retrieve_data.py)\<close>

text \<open>Every exception of the source is a value; a failing step also returns the state it left.\<close>

datatype error =
    KeyError string
  | IOError string
  | DoesNotExist
  | IntegrityError string
  | UnicodeDecodeError
  | OtherError string

datatype arg = Str string | Pk nat

record event =
  ev_name :: string
  ev_arguments :: "(string \<times> arg) list"

text \<open>A paragraph of a \<open>Sources\<close> file: its fields in order; \<open>stanza[k]\<close> is \<open>map_of stanza k\<close>.\<close>

type_synonym stanza = "(string \<times> string) list"

text \<open>A \<open>SourcePackage\<close> row. A contributor is the pair (email, name).\<close>

record source_package =
  sp_pk :: nat
  sp_name :: string
  sp_version :: string
  sp_architectures :: "string list"
  sp_binary_packages :: "string list"
  sp_maintainer :: "(string \<times> string) option"
  sp_uploaders :: "(string \<times> string) list"
  sp_other :: "(string \<times> string) list"

text \<open>A \<open>SourcePackageRepositoryEntry\<close> row; a repository is referred to by its name.\<close>

record repository_entry =
  re_id :: nat
  re_repository :: string
  re_source_package :: nat
  re_priority :: string
  re_section :: string

text \<open>
  The tables behind the managers the task uses, each in the order its query set is iterated.
\<close>

record store =
  source_package_names :: "string list"
  source_packages :: "source_package list"
  repository_entries :: "repository_entry list"
  binary_package_names :: "string list"
  architectures :: "string list"
  contributor_emails :: "string list"
  contributor_names :: "(string \<times> string) list"
  next_source_package_pk :: nat
  next_repository_entry_id :: nat

text \<open>
  The task object together with the database it writes: \<open>events\<close> are the events raised so
  far, \<open>all_repository_entries\<close> is \<open>self._all_repository_entries\<close>.
\<close>

record task =
  db :: store
  events :: "event list"
  all_repository_entries :: "nat list"

type_synonym 'a result = "(error \<times> task) + 'a"

text \<open>
  Modelled from the spec: \<open>BaseTask.raise_event\<close> (pts/core/tasks.py is not among the
  sources) appends an event with the given name and arguments to the task's events.
\<close>

definition raise_event :: "string \<Rightarrow> (string \<times> arg) list \<Rightarrow> task \<Rightarrow> task" where
  "raise_event n args t = t\<lparr>events := events t @ [\<lparr>ev_name = n, ev_arguments = args\<rparr>]\<rparr>"

definition clear_processed_repository_entries :: "task \<Rightarrow> task" where
  "clear_processed_repository_entries t = t\<lparr>all_repository_entries := []\<rparr>"

definition add_processed_repository_entry :: "repository_entry \<Rightarrow> task \<Rightarrow> task" where
  "add_processed_repository_entry e t =
     t\<lparr>all_repository_entries := all_repository_entries t @ [re_id e]\<rparr>"

subsection \<open>Extraction of the metadata of a new version\<close>

text \<open>
  The dictionary returned by \<open>extract_information_from_sources_entry\<close> of
  pts/core/utils/packages.py, which is not among the sources and is a parameter of the model:
  a key that may be absent is an option; a parsed address has an email and maybe a name.
\<close>

record sources_entry =
  se_architectures :: "string list option"
  se_binary_packages :: "string list option"
  se_maintainer :: "(string \<times> string option) option"
  se_uploaders :: "(string \<times> string option) list option"
  se_other :: "(string \<times> string) list"

text \<open>The same dictionary after its values have been replaced by model instances.\<close>

record converted_entry =
  ce_architectures :: "string list option"
  ce_binary_packages :: "string list option"
  ce_maintainer :: "(string \<times> string) option"
  ce_uploaders :: "(string \<times> string) list option"
  ce_other :: "(string \<times> string) list"

definition create_binary_package_name :: "task \<Rightarrow> string \<Rightarrow> task" where
  "create_binary_package_name t b =
     raise_event ''new-binary-package'' [(''name'', Str b)]
       (t\<lparr>db := (db t)\<lparr>binary_package_names := binary_package_names (db t) @ [b]\<rparr>\<rparr>)"

definition convert_binary_packages :: "string list \<Rightarrow> task \<Rightarrow> string list \<times> task" where
  "convert_binary_packages binary_package_names' t =
     (let existing_binaries_names =
            [b \<leftarrow> binary_package_names (db t). b \<in> set binary_package_names'];
          new = [b \<leftarrow> binary_package_names'. b \<notin> set existing_binaries_names]
      in (existing_binaries_names @ new, foldl create_binary_package_name t new))"

definition get_or_create_contributor_email :: "string \<Rightarrow> store \<Rightarrow> store" where
  "get_or_create_contributor_email e d =
     (if e \<in> set (contributor_emails d) then d
      else d\<lparr>contributor_emails := contributor_emails d @ [e]\<rparr>)"

definition get_or_create_contributor_name :: "string \<times> string \<Rightarrow> store \<Rightarrow> store" where
  "get_or_create_contributor_name c d =
     (if c \<in> set (contributor_names d) then d
      else d\<lparr>contributor_names := contributor_names d @ [c]\<rparr>)"

definition name_or_empty :: "string option \<Rightarrow> string" where
  "name_or_empty n = (case n of None \<Rightarrow> [] | Some s \<Rightarrow> s)"

definition convert_maintainer :: "string \<times> string option \<Rightarrow> task \<Rightarrow> (string \<times> string) \<times> task" where
  "convert_maintainer m t =
     (let c = (fst m, name_or_empty (snd m))
      in (c, t\<lparr>db := get_or_create_contributor_name c
                       (get_or_create_contributor_email (fst m) (db t))\<rparr>))"

text \<open>
  The uploaders: the emails that exist are looked up once, before the loop; an email not
  among them is created, then the name is got or created.
\<close>

definition convert_uploader :: "string list \<Rightarrow> task \<Rightarrow> string \<times> string option \<Rightarrow> task" where
  "convert_uploader existing_contributor_emails t u =
     (let d1 = (if fst u \<notin> set existing_contributor_emails
                then (db t)\<lparr>contributor_emails := contributor_emails (db t) @ [fst u]\<rparr>
                else db t)
      in t\<lparr>db := get_or_create_contributor_name (fst u, name_or_empty (snd u)) d1\<rparr>)"

definition convert_uploaders ::
  "(string \<times> string option) list \<Rightarrow> task \<Rightarrow> (string \<times> string) list \<times> task" where
  "convert_uploaders us t =
     (let existing_contributor_emails =
            [e \<leftarrow> contributor_emails (db t). e \<in> set (map fst us)]
      in (map (\<lambda>u. (fst u, name_or_empty (snd u))) us,
          foldl (convert_uploader existing_contributor_emails) t us))"

text \<open>
  \<open>_extract_information_from_sources_entry\<close>: unknown architectures are discarded, missing
  binary package names are created with a \<open>new-binary-package\<close> event each, contributors are
  got or created.
\<close>

definition extract_information_from_sources_entry ::
  "(stanza \<Rightarrow> error + sources_entry) \<Rightarrow> stanza \<Rightarrow> task \<Rightarrow> (converted_entry \<times> task) result" where
  "extract_information_from_sources_entry extract stanza t =
     (case extract stanza of
        Inl err \<Rightarrow> Inl (err, t)
      | Inr entry \<Rightarrow>
          let archs = (case se_architectures entry of
                         None \<Rightarrow> None
                       | Some names \<Rightarrow> Some [a \<leftarrow> architectures (db t). a \<in> set names]);
              (bins, t1) = (case se_binary_packages entry of
                              None \<Rightarrow> (None, t)
                            | Some names \<Rightarrow>
                                (case convert_binary_packages names t of
                                   (bs, t') \<Rightarrow> (Some bs, t')));
              (maint, t2) = (case se_maintainer entry of
                               None \<Rightarrow> (None, t1)
                             | Some m \<Rightarrow>
                                 (case convert_maintainer m t1 of (c, t') \<Rightarrow> (Some c, t')));
              (upl, t3) = (case se_uploaders entry of
                             None \<Rightarrow> (None, t2)
                           | Some us \<Rightarrow>
                               (case convert_uploaders us t2 of (cs, t') \<Rightarrow> (Some cs, t')))
          in Inr (\<lparr>ce_architectures = archs, ce_binary_packages = bins, ce_maintainer = maint,
                   ce_uploaders = upl, ce_other = se_other entry\<rparr>, t3))"

text \<open>
  Modelled from the spec: \<open>SourcePackage.update(**entry)\<close> (pts/core/models.py is not among
  the sources) attaches the extracted metadata: every key present in the dictionary is set.
\<close>

definition update_source_package :: "converted_entry \<Rightarrow> source_package \<Rightarrow> source_package" where
  "update_source_package entry p =
     p\<lparr>sp_architectures := (case ce_architectures entry of None \<Rightarrow> sp_architectures p | Some a \<Rightarrow> a),
       sp_binary_packages := (case ce_binary_packages entry of None \<Rightarrow> sp_binary_packages p | Some b \<Rightarrow> b),
       sp_maintainer := (case ce_maintainer entry of None \<Rightarrow> sp_maintainer p | Some m \<Rightarrow> Some m),
       sp_uploaders := (case ce_uploaders entry of None \<Rightarrow> sp_uploaders p | Some u \<Rightarrow> u),
       sp_other := ce_other entry\<rparr>"

text \<open>\<open>src_pkg.save()\<close>: the row with the primary key of \<open>p\<close> is overwritten.\<close>

definition save_source_package :: "source_package \<Rightarrow> store \<Rightarrow> store" where
  "save_source_package p d =
     d\<lparr>source_packages := map (\<lambda>q. if sp_pk q = sp_pk p then p else q) (source_packages d)\<rparr>"

subsection \<open>Processing one stanza of an updated Sources file\<close>

text \<open>
  Lines 609-633 of \<open>_update_sources_file\<close>: the name and the version named by the stanza
  are got or created; only a version created here gets the event
  \<open>new-source-package-version\<close> and the extracted metadata.
\<close>

definition find_source_package :: "string \<Rightarrow> string \<Rightarrow> store \<Rightarrow> source_package option" where
  "find_source_package n v d =
     find (\<lambda>p. sp_name p = n \<and> sp_version p = v) (source_packages d)"

definition new_source_package :: "nat \<Rightarrow> string \<Rightarrow> string \<Rightarrow> source_package" where
  "new_source_package pk n v =
     \<lparr>sp_pk = pk, sp_name = n, sp_version = v, sp_architectures = [], sp_binary_packages = [],
      sp_maintainer = None, sp_uploaders = [], sp_other = []\<rparr>"

definition get_or_create_source_package_name :: "string \<Rightarrow> task \<Rightarrow> task" where
  "get_or_create_source_package_name n t =
     (if n \<in> set (source_package_names (db t)) then t
      else raise_event ''new-source-package'' [(''name'', Str n)]
             (t\<lparr>db := (db t)\<lparr>source_package_names := source_package_names (db t) @ [n]\<rparr>\<rparr>))"

definition create_source_package ::
  "(stanza \<Rightarrow> error + sources_entry) \<Rightarrow> stanza \<Rightarrow> string \<Rightarrow> string \<Rightarrow> task \<Rightarrow>
   (source_package \<times> task) result" where
  "create_source_package extract stanza n v t =
     (let pk = next_source_package_pk (db t);
          src_pkg = new_source_package pk n v;
          t1 = t\<lparr>db := (db t)\<lparr>source_packages := source_packages (db t) @ [src_pkg],
                              next_source_package_pk := Suc pk\<rparr>\<rparr>;
          t2 = raise_event ''new-source-package-version''
                 [(''name'', Str n), (''version'', Str v), (''pk'', Pk pk)] t1
      in case extract_information_from_sources_entry extract stanza t2 of
           Inl err \<Rightarrow> Inl err
         | Inr (entry, t3) \<Rightarrow>
             let src_pkg' = update_source_package entry src_pkg
             in Inr (src_pkg', t3\<lparr>db := save_source_package src_pkg' (db t3)\<rparr>))"

definition stanza_source_package ::
  "(stanza \<Rightarrow> error + sources_entry) \<Rightarrow> stanza \<Rightarrow> task \<Rightarrow> (source_package \<times> task) result" where
  "stanza_source_package extract stanza t =
     (case map_of stanza ''package'' of
        None \<Rightarrow> Inl (KeyError ''package'', t)
      | Some n \<Rightarrow>
          let t1 = get_or_create_source_package_name n t
          in case map_of stanza ''version'' of
               None \<Rightarrow> Inl (KeyError ''version'', t1)
             | Some v \<Rightarrow>
                 (case find_source_package n v (db t1) of
                    Some src_pkg \<Rightarrow> Inr (src_pkg, t1)
                  | None \<Rightarrow> create_source_package extract stanza n v t1))"

text \<open>
  Modelled from the spec: the methods \<open>has_source_package\<close>, \<open>has_source_package_name\<close> and
  \<open>add_source_package\<close> of \<open>Repository\<close> (pts/core/models.py is not among the sources): a
  repository holds a version when it has an entry for it, holds a name when it has an entry
  for some version of that name, and adding a version creates the entry.
\<close>

definition has_source_package :: "string \<Rightarrow> source_package \<Rightarrow> store \<Rightarrow> bool" where
  "has_source_package repository src_pkg d =
     list_ex (\<lambda>e. re_repository e = repository \<and> re_source_package e = sp_pk src_pkg)
       (repository_entries d)"

definition has_source_package_name :: "string \<Rightarrow> string \<Rightarrow> store \<Rightarrow> bool" where
  "has_source_package_name repository n d =
     list_ex (\<lambda>e. re_repository e = repository \<and>
                  list_ex (\<lambda>p. sp_pk p = re_source_package e \<and> sp_name p = n) (source_packages d))
       (repository_entries d)"

definition add_source_package ::
  "string \<Rightarrow> source_package \<Rightarrow> string \<Rightarrow> string \<Rightarrow> store \<Rightarrow> repository_entry \<times> store" where
  "add_source_package repository src_pkg priority section d =
     (let entry = \<lparr>re_id = next_repository_entry_id d, re_repository = repository,
                   re_source_package = sp_pk src_pkg, re_priority = priority,
                   re_section = section\<rparr>
      in (entry, d\<lparr>repository_entries := repository_entries d @ [entry],
                   next_repository_entry_id := Suc (next_repository_entry_id d)\<rparr>))"

text \<open>\<open>stanza.get(key, '')\<close>.\<close>

definition stanza_get :: "stanza \<Rightarrow> string \<Rightarrow> string" where
  "stanza_get stanza k = (case map_of stanza k of None \<Rightarrow> [] | Some v \<Rightarrow> v)"

text \<open>\<open>SourcePackageRepositoryEntry.objects.get(repository=..., source_package=...)\<close>.\<close>

definition get_repository_entry :: "string \<Rightarrow> source_package \<Rightarrow> store \<Rightarrow> repository_entry option" where
  "get_repository_entry repository src_pkg d =
     find (\<lambda>e. re_repository e = repository \<and> re_source_package e = sp_pk src_pkg)
       (repository_entries d)"

text \<open>Lines 635-662 of \<open>_update_sources_file\<close>.\<close>

definition stanza_repository_entry ::
  "string \<Rightarrow> stanza \<Rightarrow> source_package \<Rightarrow> task \<Rightarrow> task result" where
  "stanza_repository_entry repository stanza src_pkg t =
     (if \<not> has_source_package repository src_pkg (db t) then
        let t1 = (if \<not> has_source_package_name repository (sp_name src_pkg) (db t)
                  then raise_event ''new-source-package-in-repository''
                         [(''name'', Str (sp_name src_pkg)), (''repository'', Str repository)] t
                  else t);
            (entry, d) = add_source_package repository src_pkg
                           (stanza_get stanza ''priority'') (stanza_get stanza ''section'') (db t1);
            t2 = raise_event ''new-source-package-version-in-repository''
                   [(''name'', Str (sp_name src_pkg)), (''version'', Str (sp_version src_pkg)),
                    (''repository'', Str repository)] (t1\<lparr>db := d\<rparr>)
        in Inr (add_processed_repository_entry entry t2)
      else
        case get_repository_entry repository src_pkg (db t) of
          None \<Rightarrow> Inl (DoesNotExist, t)
        | Some entry \<Rightarrow> Inr (add_processed_repository_entry entry t))"

text \<open>
  One iteration of the loop of \<open>_update_sources_file\<close>. \<open>allow_package\<close> is the result of
  \<open>vendor.call('allow_package', stanza)\<close>: the hook's answer and whether it is implemented.
\<close>

definition update_stanza ::
  "(stanza \<Rightarrow> bool option \<times> bool) \<Rightarrow> (stanza \<Rightarrow> error + sources_entry) \<Rightarrow> string \<Rightarrow>
   task \<Rightarrow> stanza \<Rightarrow> task result" where
  "update_stanza allow_package extract repository t stanza =
     (case allow_package stanza of
        (allow, implemented) \<Rightarrow>
          if (case allow of None \<Rightarrow> False | Some a \<Rightarrow> implemented \<and> \<not> a) then Inr t
          else case stanza_source_package extract stanza t of
                 Inl err \<Rightarrow> Inl err
               | Inr (src_pkg, t1) \<Rightarrow> stanza_repository_entry repository stanza src_pkg t1)"

text \<open>A loop whose body may raise: the first error ends it.\<close>

fun for_each :: "(task \<Rightarrow> 'a \<Rightarrow> task result) \<Rightarrow> 'a list \<Rightarrow> task \<Rightarrow> task result" where
  "for_each body [] t = Inr t"
| "for_each body (x # xs) t =
     (case body t x of Inl err \<Rightarrow> Inl err | Inr t' \<Rightarrow> for_each body xs t')"

text \<open>
  \<open>_update_sources_file\<close>. The file system is the map \<open>read_sources\<close> from a file name to
  the paragraphs of the file; opening a file that is not there raises.
\<close>

definition update_sources_file ::
  "(string \<Rightarrow> stanza list option) \<Rightarrow> (stanza \<Rightarrow> bool option \<times> bool) \<Rightarrow>
   (stanza \<Rightarrow> error + sources_entry) \<Rightarrow> string \<Rightarrow> task \<Rightarrow> string \<Rightarrow> task result" where
  "update_sources_file read_sources allow_package extract repository t sources_file =
     (case read_sources sources_file of
        None \<Rightarrow> Inl (IOError sources_file, t)
      | Some stanzas \<Rightarrow> for_each (update_stanza allow_package extract repository) stanzas t)"

subsection \<open>Files that were not updated, and the removal of stale entries\<close>

text \<open>
  The dictionary comprehension of \<open>_mark_sources_file_not_processed\<close>: the value is
  evaluated before the key, and a later stanza of the same name overwrites an earlier one.
\<close>

fun packages_of :: "stanza list \<Rightarrow> (string \<rightharpoonup> string) \<Rightarrow> error + (string \<rightharpoonup> string)" where
  "packages_of [] packages = Inr packages"
| "packages_of (stanza # stanzas) packages =
     (case map_of stanza ''version'' of
        None \<Rightarrow> Inl (KeyError ''version'')
      | Some v \<Rightarrow>
          (case map_of stanza ''package'' of
             None \<Rightarrow> Inl (KeyError ''package'')
           | Some n \<Rightarrow> packages_of stanzas (packages(n \<mapsto> v))))"

text \<open>\<open>entry.source_package\<close>: the row the foreign key points to.\<close>

definition entry_source_package :: "store \<Rightarrow> repository_entry \<Rightarrow> source_package option" where
  "entry_source_package d e = find (\<lambda>p. sp_pk p = re_source_package e) (source_packages d)"

definition marked_entries :: "string \<Rightarrow> (string \<rightharpoonup> string) \<Rightarrow> store \<Rightarrow> repository_entry list" where
  "marked_entries repository packages d =
     [e \<leftarrow> [e \<leftarrow> repository_entries d.
              re_repository e = repository \<and>
              (case entry_source_package d e of
                 None \<Rightarrow> False
               | Some p \<Rightarrow> packages (sp_name p) \<noteq> None)].
        (case entry_source_package d e of
           None \<Rightarrow> False
         | Some p \<Rightarrow> Some (sp_version p) = packages (sp_name p))]"

definition mark_sources_file_not_processed ::
  "(string \<Rightarrow> stanza list option) \<Rightarrow> string \<Rightarrow> task \<Rightarrow> string \<Rightarrow> task result" where
  "mark_sources_file_not_processed read_sources repository t sources_file_name =
     (case read_sources sources_file_name of
        None \<Rightarrow> Inl (IOError sources_file_name, t)
      | Some stanzas \<Rightarrow>
          (case packages_of stanzas Map.empty of
             Inl err \<Rightarrow> Inl (err, t)
           | Inr packages \<Rightarrow>
               Inr (foldl (\<lambda>t e. add_processed_repository_entry e t) t
                      (marked_entries repository packages (db t)))))"

text \<open>
  \<open>_update_repository_entries\<close>: the entries of the repository whose id was not recorded
  are announced as lost, one event each, then deleted; the record of ids is cleared.
\<close>

definition stale_entries :: "string \<Rightarrow> task \<Rightarrow> repository_entry list" where
  "stale_entries repository t =
     [e \<leftarrow> repository_entries (db t).
        re_repository e = repository \<and> re_id e \<notin> set (all_repository_entries t)]"

definition raise_lost_entry :: "task \<Rightarrow> repository_entry \<Rightarrow> task result" where
  "raise_lost_entry t e =
     (case entry_source_package (db t) e of
        None \<Rightarrow> Inl (DoesNotExist, t)
      | Some source_package \<Rightarrow>
          Inr (raise_event ''lost-source-package-version-in-repository''
                 [(''name'', Str (sp_name source_package)),
                  (''version'', Str (sp_version source_package)),
                  (''repository'', Str (re_repository e))] t))"

definition delete_stale_entries :: "string \<Rightarrow> task \<Rightarrow> task" where
  "delete_stale_entries repository t =
     t\<lparr>db := (db t)\<lparr>repository_entries :=
         [e \<leftarrow> repository_entries (db t).
            \<not> (re_repository e = repository \<and> re_id e \<notin> set (all_repository_entries t))]\<rparr>\<rparr>"

definition update_repository_entries :: "string \<Rightarrow> task \<Rightarrow> task result" where
  "update_repository_entries repository t =
     (case for_each raise_lost_entry (stale_entries repository t) t of
        Inl err \<Rightarrow> Inl err
      | Inr t1 \<Rightarrow> Inr (clear_processed_repository_entries (delete_stale_entries repository t1)))"

text \<open>The two events of lines 638 and 649.\<close>

definition in_repository_event :: "string \<Rightarrow> source_package \<Rightarrow> event" where
  "in_repository_event r p =
     \<lparr>ev_name = ''new-source-package-in-repository'',
      ev_arguments = [(''name'', Str (sp_name p)), (''repository'', Str r)]\<rparr>"

definition version_in_repository_event :: "string \<Rightarrow> source_package \<Rightarrow> event" where
  "version_in_repository_event r p =
     \<lparr>ev_name = ''new-source-package-version-in-repository'',
      ev_arguments = [(''name'', Str (sp_name p)), (''version'', Str (sp_version p)),
                      (''repository'', Str r)]\<rparr>"

text \<open>The events of lines 613, 622 and 557.\<close>

definition new_source_package_event :: "string \<Rightarrow> event" where
  "new_source_package_event n =
     \<lparr>ev_name = ''new-source-package'', ev_arguments = [(''name'', Str n)]\<rparr>"

definition new_version_event :: "string \<Rightarrow> string \<Rightarrow> nat \<Rightarrow> event" where
  "new_version_event n v pk =
     \<lparr>ev_name = ''new-source-package-version'',
      ev_arguments = [(''name'', Str n), (''version'', Str v), (''pk'', Pk pk)]\<rparr>"

definition new_binary_package_event :: "string \<Rightarrow> event" where
  "new_binary_package_event b =
     \<lparr>ev_name = ''new-binary-package'', ev_arguments = [(''name'', Str b)]\<rparr>"

subsection \<open>Removal of obsolete packages\<close>

text \<open>
  \<open>_remove_query_set_if_count_zero\<close>. A query set is given by the table it reads
  (\<open>qs_all\<close>), how the table is written back (\<open>qs_write\<close>) and the annotated count of the
  field (\<open>count_field\<close>). The events of the rows whose count is zero are raised first, one
  after the other; \<open>qs.delete()\<close> then removes those rows.
\<close>

definition count_zero :: "(store \<Rightarrow> 'a list) \<Rightarrow> (store \<Rightarrow> 'a \<Rightarrow> nat) \<Rightarrow> store \<Rightarrow> 'a list" where
  "count_zero qs_all count_field d = [x \<leftarrow> qs_all d. count_field d x = 0]"

definition raise_events_of ::
  "('a \<Rightarrow> string \<times> (string \<times> arg) list) \<Rightarrow> 'a list \<Rightarrow> task \<Rightarrow> task" where
  "raise_events_of event_generator qs t =
     foldl (\<lambda>t item. case event_generator item of (n, args) \<Rightarrow> raise_event n args t) t qs"

definition raise_count_zero_events ::
  "(store \<Rightarrow> 'a list) \<Rightarrow> (store \<Rightarrow> 'a \<Rightarrow> nat) \<Rightarrow>
   ('a \<Rightarrow> string \<times> (string \<times> arg) list) option \<Rightarrow> task \<Rightarrow> task" where
  "raise_count_zero_events qs_all count_field event_generator t =
     (case event_generator of
        None \<Rightarrow> t
      | Some g \<Rightarrow> raise_events_of g (count_zero qs_all count_field (db t)) t)"

definition delete_count_zero ::
  "(store \<Rightarrow> 'a list) \<Rightarrow> ('a list \<Rightarrow> store \<Rightarrow> store) \<Rightarrow> (store \<Rightarrow> 'a \<Rightarrow> nat) \<Rightarrow> task \<Rightarrow> task" where
  "delete_count_zero qs_all qs_write count_field t =
     t\<lparr>db := qs_write [x \<leftarrow> qs_all (db t). count_field (db t) x \<noteq> 0] (db t)\<rparr>"

definition remove_query_set_if_count_zero ::
  "(store \<Rightarrow> 'a list) \<Rightarrow> ('a list \<Rightarrow> store \<Rightarrow> store) \<Rightarrow> (store \<Rightarrow> 'a \<Rightarrow> nat) \<Rightarrow>
   ('a \<Rightarrow> string \<times> (string \<times> arg) list) option \<Rightarrow> task \<Rightarrow> task" where
  "remove_query_set_if_count_zero qs_all qs_write count_field event_generator t =
     delete_count_zero qs_all qs_write count_field
       (raise_count_zero_events qs_all count_field event_generator t)"

text \<open>The three counts: \<open>repository\<close>, \<open>source_package_versions\<close> and \<open>sourcepackage\<close>.\<close>

definition count_repository :: "store \<Rightarrow> source_package \<Rightarrow> nat" where
  "count_repository d p =
     length [e \<leftarrow> repository_entries d. re_source_package e = sp_pk p]"

definition count_source_package_versions :: "store \<Rightarrow> string \<Rightarrow> nat" where
  "count_source_package_versions d n = length [p \<leftarrow> source_packages d. sp_name p = n]"

definition count_sourcepackage :: "store \<Rightarrow> string \<Rightarrow> nat" where
  "count_sourcepackage d b = length [p \<leftarrow> source_packages d. b \<in> set (sp_binary_packages p)]"

definition lost_version_event :: "source_package \<Rightarrow> string \<times> (string \<times> arg) list" where
  "lost_version_event source_package =
     (''lost-version-of-source-package'',
      [(''name'', Str (sp_name source_package)), (''version'', Str (sp_version source_package))])"

definition lost_source_package_event :: "string \<Rightarrow> string \<times> (string \<times> arg) list" where
  "lost_source_package_event package = (''lost-source-package'', [(''name'', Str package)])"

definition lost_binary_package_event :: "string \<Rightarrow> string \<times> (string \<times> arg) list" where
  "lost_binary_package_event binary_package_name =
     (''lost-binary-package'', [(''name'', Str binary_package_name)])"

definition remove_obsolete_versions :: "task \<Rightarrow> task" where
  "remove_obsolete_versions =
     remove_query_set_if_count_zero source_packages (\<lambda>xs d. d\<lparr>source_packages := xs\<rparr>)
       count_repository (Some lost_version_event)"

definition remove_obsolete_names :: "task \<Rightarrow> task" where
  "remove_obsolete_names =
     remove_query_set_if_count_zero source_package_names
       (\<lambda>xs d. d\<lparr>source_package_names := xs\<rparr>)
       count_source_package_versions (Some lost_source_package_event)"

definition remove_obsolete_binaries :: "task \<Rightarrow> task" where
  "remove_obsolete_binaries =
     remove_query_set_if_count_zero binary_package_names
       (\<lambda>xs d. d\<lparr>binary_package_names := xs\<rparr>)
       count_sourcepackage (Some lost_binary_package_event)"

definition remove_obsolete_packages :: "task \<Rightarrow> task" where
  "remove_obsolete_packages t =
     remove_obsolete_binaries (remove_obsolete_names (remove_obsolete_versions t))"

subsection \<open>The task's run\<close>

text \<open>
  The collaborator \<open>AptCache\<close>: what \<open>update_repositories(force)\<close> returns (the updated
  \<open>Sources\<close> files, each with its repository) or raises, the cached \<open>Sources\<close> files of a
  repository, and the paragraphs of a cached file.
\<close>

record apt_cache =
  update_repositories :: "bool \<Rightarrow> error + (string \<times> string) list"
  get_sources_files_for_repository :: "string \<Rightarrow> string list"
  read_sources :: "string \<Rightarrow> stanza list option"

text \<open>
  \<open>repository_files\<close>: the updated files grouped by repository
  (\<open>setdefault\<close> and \<open>append\<close>), the repositories in the order of their first file.
\<close>

fun group_append :: "string \<Rightarrow> string \<Rightarrow> (string \<times> string list) list \<Rightarrow> (string \<times> string list) list" where
  "group_append r f [] = [(r, [f])]"
| "group_append r f ((r', fs) # rest) =
     (if r' = r then (r', fs @ [f]) # rest else (r', fs) # group_append r f rest)"

definition repository_files_of :: "(string \<times> string) list \<Rightarrow> (string \<times> string list) list" where
  "repository_files_of updated_sources =
     foldl (\<lambda>m (r, f). group_append r f m) [] updated_sources"

text \<open>The body of the loop over \<open>repository_files.items()\<close>.\<close>

definition process_repository ::
  "apt_cache \<Rightarrow> (stanza \<Rightarrow> bool option \<times> bool) \<Rightarrow> (stanza \<Rightarrow> error + sources_entry) \<Rightarrow>
   task \<Rightarrow> string \<times> string list \<Rightarrow> task result" where
  "process_repository apt allow_package extract t rf =
     (case rf of (repository, sources_files) \<Rightarrow>
        (case for_each (update_sources_file (read_sources apt) allow_package extract repository)
                sources_files t of
           Inl err \<Rightarrow> Inl err
         | Inr t1 \<Rightarrow>
             (case for_each (mark_sources_file_not_processed (read_sources apt) repository)
                     [f \<leftarrow> get_sources_files_for_repository apt repository.
                        f \<notin> set sources_files] t1 of
                Inl err \<Rightarrow> Inl err
              | Inr t2 \<Rightarrow> update_repository_entries repository t2)))"

text \<open>
  \<open>transaction.commit_on_success()\<close>: when the block raises, the database is rolled back to
  what it was on entry; the task object in memory keeps what the block did to it.
\<close>

definition commit_on_success :: "(task \<Rightarrow> task result) \<Rightarrow> task \<Rightarrow> task result" where
  "commit_on_success block t =
     (case block t of
        Inl (err, t') \<Rightarrow> Inl (err, t'\<lparr>db := db t\<rparr>)
      | Inr t' \<Rightarrow> Inr t')"

text \<open>
  Modelled from the spec: the decorator \<open>clear_all_events_on_exception\<close> (pts/core/tasks.py is
  not among the sources): when the decorated method raises, the events the task has raised
  are discarded and the exception is raised again.
\<close>

definition clear_all_events_on_exception :: "(task \<Rightarrow> task result) \<Rightarrow> task \<Rightarrow> task result" where
  "clear_all_events_on_exception func t =
     (case func t of
        Inl (err, t') \<Rightarrow> Inl (err, t'\<lparr>events := []\<rparr>)
      | Inr t' \<Rightarrow> Inr t')"

text \<open>The body of \<open>UpdateRepositoriesTask.execute\<close>, then the decorated method.\<close>

definition execute_body ::
  "apt_cache \<Rightarrow> (stanza \<Rightarrow> bool option \<times> bool) \<Rightarrow> (stanza \<Rightarrow> error + sources_entry) \<Rightarrow>
   bool \<Rightarrow> task \<Rightarrow> task result" where
  "execute_body apt allow_package extract force_update t =
     (case update_repositories apt force_update of
        Inl err \<Rightarrow> Inl (err, t)
      | Inr updated_sources \<Rightarrow>
          commit_on_success
            (\<lambda>t. case for_each (process_repository apt allow_package extract)
                         (repository_files_of updated_sources) t of
                    Inl err \<Rightarrow> Inl err
                  | Inr t' \<Rightarrow> Inr (remove_obsolete_packages t')) t)"

definition execute ::
  "apt_cache \<Rightarrow> (stanza \<Rightarrow> bool option \<times> bool) \<Rightarrow> (stanza \<Rightarrow> error + sources_entry) \<Rightarrow>
   bool \<Rightarrow> task \<Rightarrow> task result" where
  "execute apt allow_package extract force_update =
     clear_all_events_on_exception (execute_body apt allow_package extract force_update)"

subsection \<open>Notions used to state what a repository keeps\<close>

text \<open>The ids of the entries are a primary key, given out by a counter.\<close>

definition entry_ids_ok :: "store \<Rightarrow> bool" where
  "entry_ids_ok d \<longleftrightarrow>
     distinct (map re_id (repository_entries d)) \<and>
     list_all (\<lambda>e. re_id e < next_repository_entry_id d) (repository_entries d)"

text \<open>
  The words of the specification for a file that was not updated: the entry is still
  present according to the cached file when the version the file records for the name of
  the entry's package is the version of the entry.
\<close>

definition recorded_in_cached_file ::
  "(string \<Rightarrow> stanza list option) \<Rightarrow> store \<Rightarrow> string \<Rightarrow> repository_entry \<Rightarrow> bool" where
  "recorded_in_cached_file read d f e =
     (case read f of
        None \<Rightarrow> False
      | Some stanzas \<Rightarrow>
          (case packages_of stanzas Map.empty of
             Inl err \<Rightarrow> False
           | Inr packages \<Rightarrow>
               (case entry_source_package d e of
                  None \<Rightarrow> False
                | Some p \<Rightarrow> packages (sp_name p) = Some (sp_version p))))"

text \<open>The event of line 739 for an entry, when the entry's version can be read.\<close>

definition lost_entry_event :: "store \<Rightarrow> repository_entry \<Rightarrow> event option" where
  "lost_entry_event d e =
     map_option
       (\<lambda>p. \<lparr>ev_name = ''lost-source-package-version-in-repository'',
              ev_arguments = [(''name'', Str (sp_name p)), (''version'', Str (sp_version p)),
                              (''repository'', Str (re_repository e))]\<rparr>)
       (entry_source_package d e)"

text \<open>
  What the processing of the updated files maintains: the ids are a key, and every recorded
  id belongs to an entry of the repository.
\<close>

definition recorded_entries_ok :: "string \<Rightarrow> task \<Rightarrow> bool" where
  "recorded_entries_ok r t \<longleftrightarrow>
     entry_ids_ok (db t) \<and>
     (\<forall>i \<in> set (all_repository_entries t).
        \<exists>e \<in> set (repository_entries (db t)). re_id e = i \<and> re_repository e = r)"

text \<open>The event made of a name and its arguments.\<close>

definition event_of :: "string \<times> (string \<times> arg) list \<Rightarrow> event" where
  "event_of na = \<lparr>ev_name = fst na, ev_arguments = snd na\<rparr>"

section \<open>The list of pseudo packages (update_pseudo_package_list)\<close>

datatype package_type = SourcePackageType | PseudoPackageType | SubscriptionOnlyPackageType

text \<open>A \<open>PackageName\<close> row and the table of all of them, with the counter of its ids.\<close>

record package_name =
  pn_id :: nat
  pn_name :: string
  package_type :: package_type

record package_table =
  package_names :: "package_name list"
  next_package_name_id :: nat

text \<open>
  \<open>vendor.call('get_pseudo_package_list')\<close>: it raises, or returns the hook's result and
  whether the hook is implemented.
\<close>

datatype vendor_result = VendorRaises error | VendorReturns "string list option" bool

text \<open>\<open>existing_package.save()\<close>: the row with that id is overwritten.\<close>

definition save_package_name :: "package_name \<Rightarrow> package_table \<Rightarrow> package_table" where
  "save_package_name p s =
     s\<lparr>package_names := map (\<lambda>q. if pn_id q = pn_id p then p else q) (package_names s)\<rparr>"

text \<open>
  The first loop, over the pseudo packages read at its start. The set \<open>pseudo_packages\<close> is
  a list without repetition; it is returned with the names that are left over.
\<close>

fun demote_loop :: "package_name list \<Rightarrow> string list \<Rightarrow> package_table \<Rightarrow> string list \<times> package_table" where
  "demote_loop [] pseudo_packages s = (pseudo_packages, s)"
| "demote_loop (existing_package # rest) pseudo_packages s =
     (if pn_name existing_package \<notin> set pseudo_packages
      then demote_loop rest pseudo_packages
             (save_package_name
                (existing_package\<lparr>package_type := SubscriptionOnlyPackageType\<rparr>) s)
      else demote_loop rest (removeAll (pn_name existing_package) pseudo_packages) s)"

text \<open>
  Modelled from the spec: \<open>PseudoPackageName.objects.create(name=...)\<close> (pts/core/models.py
  is not among the sources). The name is the unique key of \<open>PackageName\<close>: a row with a new
  name is added as a pseudo package, and a name that a row of any type has already cannot
  be added again, the store refuses it.
\<close>

definition create_pseudo_package_name ::
  "string \<Rightarrow> package_table \<Rightarrow> (error \<times> package_table) + package_table" where
  "create_pseudo_package_name n s =
     (if list_ex (\<lambda>p. pn_name p = n) (package_names s) then Inl (IntegrityError n, s)
      else Inr (s\<lparr>package_names := package_names s @
                      [\<lparr>pn_id = next_package_name_id s, pn_name = n,
                        package_type = PseudoPackageType\<rparr>],
                  next_package_name_id := Suc (next_package_name_id s)\<rparr>))"

fun create_loop :: "string list \<Rightarrow> package_table \<Rightarrow> (error \<times> package_table) + package_table" where
  "create_loop [] s = Inr s"
| "create_loop (package_name # rest) s =
     (case create_pseudo_package_name package_name s of
        Inl err \<Rightarrow> Inl err
      | Inr s' \<Rightarrow> create_loop rest s')"

text \<open>
  \<open>update_pseudo_package_list\<close>. Python does not fix the order in which a set is iterated;
  the model takes the order of the list the set is made from.
\<close>

definition update_pseudo_package_list ::
  "vendor_result \<Rightarrow> package_table \<Rightarrow> (error \<times> package_table) + package_table" where
  "update_pseudo_package_list vendor_call s =
     (case vendor_call of
        VendorRaises err \<Rightarrow> Inr s
      | VendorReturns pseudo_packages implemented \<Rightarrow>
          (case pseudo_packages of
             None \<Rightarrow> Inr s
           | Some l \<Rightarrow>
               if \<not> implemented then Inr s
               else (case demote_loop [p \<leftarrow> package_names s. package_type p = PseudoPackageType]
                            (remdups l) s of
                       (left_over, s') \<Rightarrow> create_loop left_over s')))"

text \<open>The table a call leaves behind, whether it returned or raised.\<close>

definition table_after :: "(error \<times> package_table) + package_table \<Rightarrow> package_table" where
  "table_after res = (case res of Inl (err, s) \<Rightarrow> s | Inr s \<Rightarrow> s)"

text \<open>
  The words of the claim for an existing row: a pseudo package whose name is no longer in
  the list becomes subscription-only, with its other fields kept; any other row stays.
\<close>

definition demoted :: "string list \<Rightarrow> package_name \<Rightarrow> package_name" where
  "demoted l p =
     (if package_type p = PseudoPackageType \<and> pn_name p \<notin> set l
      then p\<lparr>package_type := SubscriptionOnlyPackageType\<rparr> else p)"

section \<open>The command that starts tasks (pts_run_task.py)\<close>

text \<open>
  \<open>task_name.decode('utf-8')\<close> on a byte string, as CPython 2.7 decodes: one byte below
  0x80; a lead byte 0xC2-0xDF, 0xE0-0xEF or 0xF0-0xF4 followed by one, two or three
  continuation bytes, where an overlong form and a code point beyond 0x10FFFF are refused;
  any other byte, and a sequence cut short, are refused. The decoded text is represented by
  its bytes, so decoding returns the string or raises.
\<close>

definition continuation :: "nat \<Rightarrow> bool" where
  "continuation c \<longleftrightarrow> 0x80 \<le> c \<and> c < 0xC0"

fun utf8_valid :: "nat list \<Rightarrow> bool" where
  "utf8_valid [] = True"
| "utf8_valid (b # bs) =
     (if b < 0x80 then utf8_valid bs
      else if b < 0xC2 then False
      else if b < 0xE0 then
        (case bs of c # r \<Rightarrow> continuation c \<and> utf8_valid r | _ \<Rightarrow> False)
      else if b < 0xF0 then
        (case bs of
           c # d # r \<Rightarrow>
             continuation c \<and> continuation d \<and> \<not> (b = 0xE0 \<and> c < 0xA0) \<and> utf8_valid r
         | _ \<Rightarrow> False)
      else if b < 0xF5 then
        (case bs of
           c # d # e # r \<Rightarrow>
             continuation c \<and> continuation d \<and> continuation e \<and>
             \<not> (b = 0xF0 \<and> c < 0x90) \<and> \<not> (b = 0xF4 \<and> 0x8F < c) \<and> utf8_valid r
         | _ \<Rightarrow> False)
      else False)"

definition decode :: "string \<Rightarrow> error + string" where
  "decode s = (if utf8_valid (map of_char s) then Inr s else Inl UnicodeDecodeError)"

text \<open>What the command puts on \<open>self.stdout\<close>: a written line, or the trace of an exception.\<close>

datatype stdout_item = Write string | PrintExc error

text \<open>
  \<open>run_task\<close> of distro_tracker/core/tasks.py is not among the sources and is a parameter:
  given the name of a task, the additional arguments and the state of the world \<open>'w\<close>, it
  returns or raises, and leaves a state of the world.
\<close>

type_synonym 'w run_task = "string \<Rightarrow> (string \<times> bool) list option \<Rightarrow> 'w \<Rightarrow> error option \<times> 'w"

text \<open>The loop of \<open>handle\<close>: the decoding is outside the \<open>try\<close>, the call of \<open>run_task\<close> inside.\<close>

fun handle_loop ::
  "'w run_task \<Rightarrow> bool \<Rightarrow> (string \<times> bool) list option \<Rightarrow> string list \<Rightarrow> stdout_item list \<times> 'w \<Rightarrow>
   (error \<times> stdout_item list \<times> 'w) + (stdout_item list \<times> 'w)" where
  "handle_loop run_task verbose additional_arguments [] (stdout, w) = Inr (stdout, w)"
| "handle_loop run_task verbose additional_arguments (task_name # args) (stdout, w) =
     (case decode task_name of
        Inl err \<Rightarrow> Inl (err, stdout, w)
      | Inr task_name' \<Rightarrow>
          (case run_task task_name' additional_arguments w of
             (None, w') \<Rightarrow> handle_loop run_task verbose additional_arguments args (stdout, w')
           | (Some err, w') \<Rightarrow>
               handle_loop run_task verbose additional_arguments args
                 (if verbose then stdout @ [Write (task_name' @ '' failed!''), PrintExc err]
                  else stdout, w')))"

text \<open>\<open>Command.handle\<close>; \<open>verbosity\<close> is \<open>kwargs.get('verbosity')\<close>, \<open>force\<close> is \<open>kwargs['force']\<close>.\<close>

definition handle ::
  "'w run_task \<Rightarrow> int option \<Rightarrow> bool \<Rightarrow> string list \<Rightarrow> stdout_item list \<times> 'w \<Rightarrow>
   (error \<times> stdout_item list \<times> 'w) + (stdout_item list \<times> 'w)" where
  "handle run_task verbosity force args st =
     (let verbose = (case verbosity of None \<Rightarrow> 1 | Some v \<Rightarrow> v) > 1;
          additional_arguments = (if force then Some [(''force_update'', True)] else None)
      in handle_loop run_task verbose additional_arguments args st)"

text \<open>
  The words of the specification: every name is run, in order, each on the world its
  predecessors left, whatever their outcomes were; a failure is reported when verbose
  output is requested and is silent otherwise.
\<close>

fun run_all ::
  "'w run_task \<Rightarrow> (string \<times> bool) list option \<Rightarrow> string list \<Rightarrow> 'w \<Rightarrow>
   (string \<times> error option) list \<times> 'w" where
  "run_all run_task additional_arguments [] w = ([], w)"
| "run_all run_task additional_arguments (n # ns) w =
     (case run_task n additional_arguments w of
        (outcome, w') \<Rightarrow>
          (case run_all run_task additional_arguments ns w' of
             (outcomes, w'') \<Rightarrow> ((n, outcome) # outcomes, w'')))"

fun report :: "bool \<Rightarrow> string \<times> error option \<Rightarrow> stdout_item list" where
  "report verbose (n, None) = []"
| "report verbose (n, Some err) =
     (if verbose then [Write (n @ '' failed!''), PrintExc err] else [])"

text \<open>A world that logs the names of the tasks run; the task \<open>Broken\<close> raises.\<close>

definition logging_run_task :: "(string list) run_task" where
  "logging_run_task n additional_arguments w =
     (if n = ''Broken'' then Some (OtherError ''task failed'') else None, w @ [n])"

section \<open>Fixtures\<close>

text \<open>
  A repository \<open>stable\<close> whose listing has the package \<open>pkg-a\<close> in version \<open>1.0\<close>, as in the
  example scenario of the specification, and the states of the store around it.
\<close>

definition example_stanza :: stanza where
  "example_stanza = [(''package'', ''pkg-a''), (''version'', ''1.0''), (''section'', ''utils'')]"

definition example_extract :: "stanza \<Rightarrow> error + sources_entry" where
  "example_extract stanza =
     Inr \<lparr>se_architectures = Some [''amd64'', ''sparc''], se_binary_packages = Some [''pkg-a-bin''],
          se_maintainer = Some (''jane@example.org'', Some ''Jane''), se_uploaders = None,
          se_other = [(''standards_version'', ''3.9.4'')]\<rparr>"

definition empty_store :: store where
  "empty_store =
     \<lparr>source_package_names = [], source_packages = [], repository_entries = [],
      binary_package_names = [], architectures = [''amd64'', ''i386''], contributor_emails = [],
      contributor_names = [], next_source_package_pk = 1, next_repository_entry_id = 1\<rparr>"

definition empty_task :: task where
  "empty_task = \<lparr>db = empty_store, events = [], all_repository_entries = []\<rparr>"

definition example_package :: source_package where
  "example_package =
     \<lparr>sp_pk = 1, sp_name = ''pkg-a'', sp_version = ''1.0'', sp_architectures = [''amd64''],
      sp_binary_packages = [''pkg-a-bin''], sp_maintainer = Some (''jane@example.org'', ''Jane''),
      sp_uploaders = [], sp_other = [(''standards_version'', ''3.9.4'')]\<rparr>"

definition example_entry :: repository_entry where
  "example_entry =
     \<lparr>re_id = 1, re_repository = ''stable'', re_source_package = 1, re_priority = [],
      re_section = ''utils''\<rparr>"

text \<open>The version is known, and no repository lists it.\<close>

definition version_store :: store where
  "version_store =
     empty_store\<lparr>source_package_names := [''pkg-a''], source_packages := [example_package],
                 binary_package_names := [''pkg-a-bin''], next_source_package_pk := 2\<rparr>"

definition version_task :: task where
  "version_task = \<lparr>db = version_store, events = [], all_repository_entries = []\<rparr>"

text \<open>The version is known and \<open>stable\<close> lists it.\<close>

definition listed_store :: store where
  "listed_store =
     version_store\<lparr>repository_entries := [example_entry], next_repository_entry_id := 2\<rparr>"

definition listed_task :: task where
  "listed_task = \<lparr>db = listed_store, events = [], all_repository_entries = []\<rparr>"

text \<open>
  \<open>stable\<close> lists three versions: \<open>pkg-a 1.0\<close>, \<open>pkg-b 2.0\<close> and \<open>pkg-c 3.0\<close>. Its file
  \<open>main_Sources\<close> was updated and has \<open>pkg-a 1.0\<close>; its file \<open>contrib_Sources\<close> was not
  updated and has \<open>pkg-b 2.0\<close>; nothing has \<open>pkg-c\<close> any more.
\<close>

definition package_b :: source_package where
  "package_b = (new_source_package 2 ''pkg-b'' ''2.0'')\<lparr>sp_binary_packages := [''pkg-b-bin'']\<rparr>"

definition package_c :: source_package where
  "package_c = (new_source_package 3 ''pkg-c'' ''3.0'')\<lparr>sp_binary_packages := [''pkg-c-bin'']\<rparr>"

definition entry_b :: repository_entry where
  "entry_b = \<lparr>re_id = 2, re_repository = ''stable'', re_source_package = 2, re_priority = [],
              re_section = []\<rparr>"

definition entry_c :: repository_entry where
  "entry_c = \<lparr>re_id = 3, re_repository = ''stable'', re_source_package = 3, re_priority = [],
              re_section = []\<rparr>"

definition busy_store :: store where
  "busy_store =
     \<lparr>source_package_names = [''pkg-a'', ''pkg-b'', ''pkg-c''],
      source_packages = [example_package, package_b, package_c],
      repository_entries = [example_entry, entry_b, entry_c],
      binary_package_names = [''pkg-a-bin'', ''pkg-b-bin'', ''pkg-c-bin''],
      architectures = [''amd64'', ''i386''], contributor_emails = [''jane@example.org''],
      contributor_names = [(''jane@example.org'', ''Jane'')],
      next_source_package_pk = 4, next_repository_entry_id = 4\<rparr>"

definition busy_task :: task where
  "busy_task = \<lparr>db = busy_store, events = [], all_repository_entries = []\<rparr>"

definition example_files :: "string \<Rightarrow> stanza list option" where
  "example_files f =
     (if f = ''main_Sources'' then Some [example_stanza]
      else if f = ''contrib_Sources'' then Some [[(''package'', ''pkg-b''), (''version'', ''2.0'')]]
      else None)"

definition example_apt :: apt_cache where
  "example_apt =
     \<lparr>update_repositories = (\<lambda>force. Inr [(''stable'', ''main_Sources'')]),
      get_sources_files_for_repository =
        (\<lambda>r. if r = ''stable'' then [''main_Sources'', ''contrib_Sources''] else []),
      read_sources = example_files\<rparr>"

definition allow_all :: "stanza \<Rightarrow> bool option \<times> bool" where
  "allow_all stanza = (None, False)"

definition lost_c_event :: event where
  "lost_c_event =
     \<lparr>ev_name = ''lost-source-package-version-in-repository'',
      ev_arguments = [(''name'', Str ''pkg-c''), (''version'', Str ''3.0''),
                      (''repository'', Str ''stable'')]\<rparr>"

definition busy_result :: task where
  "busy_result =
     busy_task\<lparr>db := busy_store\<lparr>repository_entries := [example_entry, entry_b]\<rparr>,
               events := [lost_c_event]\<rparr>"

text \<open>The state after the removal of obsolete packages from \<open>busy_result\<close>.\<close>

definition collected_result :: task where
  "collected_result =
     busy_result\<lparr>db := (db busy_result)\<lparr>source_package_names := [''pkg-a'', ''pkg-b''],
                     source_packages := [example_package, package_b],
                     binary_package_names := [''pkg-a-bin'', ''pkg-b-bin'']\<rparr>,
       events := [lost_c_event, event_of (lost_version_event package_c),
                  event_of (lost_source_package_event ''pkg-c''),
                  event_of (lost_binary_package_event ''pkg-c-bin'')]\<rparr>"

text \<open>
  A listing whose second stanza has no \<open>Version\<close> field: the run fails at that stanza,
  after the first stanza has been processed.
\<close>

definition broken_files :: "string \<Rightarrow> stanza list option" where
  "broken_files f =
     (if f = ''main_Sources'' then Some [example_stanza, [(''package'', ''pkg-d'')]] else None)"

definition broken_apt :: apt_cache where
  "broken_apt =
     \<lparr>update_repositories = (\<lambda>force. Inr [(''stable'', ''main_Sources'')]),
      get_sources_files_for_repository = (\<lambda>r. if r = ''stable'' then [''main_Sources''] else []),
      read_sources = broken_files\<rparr>"

text \<open>A listing with two stanzas for \<open>pkg-a\<close>: version \<open>1.0\<close> first, then version \<open>2.0\<close>.\<close>

definition second_stanza :: stanza where
  "second_stanza = [(''package'', ''pkg-a''), (''version'', ''2.0'')]"

definition duplicate_files :: "string \<Rightarrow> stanza list option" where
  "duplicate_files f =
     (if f = ''main_Sources'' then Some [example_stanza, second_stanza] else None)"

definition package_a2 :: source_package where
  "package_a2 = example_package\<lparr>sp_pk := 2, sp_version := ''2.0''\<rparr>"

definition entry_a2 :: repository_entry where
  "entry_a2 = \<lparr>re_id = 2, re_repository = ''stable'', re_source_package = 2, re_priority = [],
               re_section = []\<rparr>"

definition duplicate_result :: task where
  "duplicate_result =
     \<lparr>db = listed_store\<lparr>source_packages := [example_package, package_a2],
                        repository_entries := [example_entry, entry_a2],
                        contributor_emails := [''jane@example.org''],
                        contributor_names := [(''jane@example.org'', ''Jane'')],
                        next_source_package_pk := 3, next_repository_entry_id := 3\<rparr>,
      events = [new_source_package_event ''pkg-a'', new_version_event ''pkg-a'' ''1.0'' 1,
                new_binary_package_event ''pkg-a-bin'',
                in_repository_event ''stable'' example_package,
                version_in_repository_event ''stable'' example_package,
                new_version_event ''pkg-a'' ''2.0'' 2,
                version_in_repository_event ''stable'' package_a2],
      all_repository_entries = [1, 2]\<rparr>"

text \<open>
  Package tables: one where \<open>a\<close> was a pseudo package once and is subscription-only now, and
  one with the pseudo packages \<open>a\<close> and \<open>c\<close>.
\<close>

definition returned_table :: package_table where
  "returned_table =
     \<lparr>package_names = [\<lparr>pn_id = 1, pn_name = ''a'', package_type = SubscriptionOnlyPackageType\<rparr>],
      next_package_name_id = 2\<rparr>"

definition pseudo_table :: package_table where
  "pseudo_table =
     \<lparr>package_names = [\<lparr>pn_id = 1, pn_name = ''a'', package_type = PseudoPackageType\<rparr>,
                       \<lparr>pn_id = 2, pn_name = ''c'', package_type = PseudoPackageType\<rparr>],
      next_package_name_id = 3\<rparr>"

section \<open>Properties of the space-delimited text field\<close>

lemma split_scan_word:
  "\<forall>c \<in> set w. \<not> isspace c \<Longrightarrow> split_scan cur (w @ rest) = split_scan (rev w @ cur) rest"
  by (induction w arbitrary: cur) simp_all

lemma join_Cons: "join d (x # xs) = x @ concat (map (\<lambda>s. d @ s) xs)"
  by (induction xs arbitrary: x) simp_all

lemma split_scan_tail:
  "\<forall>s \<in> set l. s \<noteq> [] \<and> (\<forall>c \<in> set s. \<not> isspace c) \<Longrightarrow> cur \<noteq> [] \<Longrightarrow>
   split_scan cur (concat (map (\<lambda>s. '' '' @ s) l)) = rev cur # l"
proof (induction l arbitrary: cur)
  case Nil
  then show ?case by simp
next
  case (Cons y ys)
  have sp: "isspace CHR '' ''" by (simp add: isspace_def)
  have y: "\<forall>c \<in> set y. \<not> isspace c" and yne: "rev y \<noteq> []" using Cons.prems(1) by simp_all
  have rest: "\<forall>s \<in> set ys. s \<noteq> [] \<and> (\<forall>c \<in> set s. \<not> isspace c)" using Cons.prems(1) by simp
  let ?t = "concat (map (\<lambda>s. '' '' @ s) ys)"
  have "split_scan cur (concat (map (\<lambda>s. '' '' @ s) (y # ys))) = split_scan cur (CHR '' '' # (y @ ?t))"
    by simp
  also have "\<dots> = rev cur # split_scan [] (y @ ?t)"
    using sp Cons.prems(2) by simp
  also have "split_scan [] (y @ ?t) = split_scan (rev y) ?t"
    using split_scan_word [OF y, of "[]" ?t] by simp
  also have "\<dots> = rev (rev y) # ys"
    by (rule Cons.IH [OF rest yne])
  finally show ?case by simp
qed

lemma split_join:
  assumes "\<forall>s \<in> set l. s \<noteq> [] \<and> (\<forall>c \<in> set s. \<not> isspace c)"
  shows "split (join '' '' l) = l"
proof (cases l)
  case Nil
  then show ?thesis by (simp add: split_def)
next
  case (Cons x xs)
  have x: "\<forall>c \<in> set x. \<not> isspace c" and xne: "rev x \<noteq> []" using assms Cons by simp_all
  have rest: "\<forall>s \<in> set xs. s \<noteq> [] \<and> (\<forall>c \<in> set s. \<not> isspace c)" using assms Cons by simp
  let ?t = "concat (map (\<lambda>s. '' '' @ s) xs)"
  have "split (join '' '' l) = split_scan [] (x @ ?t)"
    by (simp only: Cons join_Cons split_def)
  also have "\<dots> = split_scan (rev x) ?t"
    using split_scan_word [OF x, of "[]" ?t] by simp
  also have "\<dots> = rev (rev x) # xs"
    by (rule split_scan_tail [OF rest xne])
  finally show ?thesis using Cons by simp
qed



section \<open>Properties of the extraction of metadata\<close>

lemma foldl_create_binary_package_name:
  "source_packages (db (foldl create_binary_package_name t bs)) = source_packages (db t) \<and>
   next_source_package_pk (db (foldl create_binary_package_name t bs)) =
     next_source_package_pk (db t) \<and>
   source_package_names (db (foldl create_binary_package_name t bs)) =
     source_package_names (db t) \<and>
   repository_entries (db (foldl create_binary_package_name t bs)) = repository_entries (db t) \<and>
   architectures (db (foldl create_binary_package_name t bs)) = architectures (db t) \<and>
   all_repository_entries (foldl create_binary_package_name t bs) = all_repository_entries t \<and>
   events (foldl create_binary_package_name t bs) =
     events t @ map new_binary_package_event bs"
  by (induction bs rule: rev_induct)
     (simp_all add: create_binary_package_name_def raise_event_def new_binary_package_event_def)

lemma foldl_convert_uploader:
  "source_packages (db (foldl (convert_uploader ex) t us)) = source_packages (db t) \<and>
   next_source_package_pk (db (foldl (convert_uploader ex) t us)) =
     next_source_package_pk (db t) \<and>
   source_package_names (db (foldl (convert_uploader ex) t us)) =
     source_package_names (db t) \<and>
   repository_entries (db (foldl (convert_uploader ex) t us)) = repository_entries (db t) \<and>
   all_repository_entries (foldl (convert_uploader ex) t us) = all_repository_entries t \<and>
   events (foldl (convert_uploader ex) t us) = events t"
  by (induction us rule: rev_induct)
     (simp_all add: convert_uploader_def get_or_create_contributor_name_def Let_def)

lemma convert_maintainer_frame:
  "convert_maintainer m t = (c, t') \<Longrightarrow>
   c = (fst m, name_or_empty (snd m)) \<and>
   source_packages (db t') = source_packages (db t) \<and>
   next_source_package_pk (db t') = next_source_package_pk (db t) \<and>
   source_package_names (db t') = source_package_names (db t) \<and>
   repository_entries (db t') = repository_entries (db t) \<and>
   all_repository_entries t' = all_repository_entries t \<and>
   events t' = events t"
  by (auto simp: convert_maintainer_def get_or_create_contributor_name_def
      get_or_create_contributor_email_def Let_def)

text \<open>
  What the extraction returns and what it leaves alone: the only events it raises are
  \<open>new-binary-package\<close> events, and it writes no version, name or entry.
\<close>

lemma extract_information_frame:
  assumes "extract_information_from_sources_entry extract stanza t = Inr (ce, t')"
  shows "\<exists>entry. extract stanza = Inr entry \<and>
           ce_other ce = se_other entry \<and>
           ce_architectures ce =
             map_option (\<lambda>names. [a \<leftarrow> architectures (db t). a \<in> set names])
               (se_architectures entry) \<and>
           ce_maintainer ce =
             map_option (\<lambda>m. (fst m, name_or_empty (snd m))) (se_maintainer entry) \<and>
           ce_uploaders ce =
             map_option (map (\<lambda>u. (fst u, name_or_empty (snd u)))) (se_uploaders entry) \<and>
           ce_binary_packages ce =
             map_option (\<lambda>names. fst (convert_binary_packages names t))
               (se_binary_packages entry)"
    and "source_packages (db t') = source_packages (db t)"
    and "next_source_package_pk (db t') = next_source_package_pk (db t)"
    and "source_package_names (db t') = source_package_names (db t)"
    and "repository_entries (db t') = repository_entries (db t)"
    and "all_repository_entries t' = all_repository_entries t"
    and "\<exists>bs. events t' = events t @ map new_binary_package_event bs"
proof -
  from assms obtain entry where entry: "extract stanza = Inr entry"
    by (auto simp: extract_information_from_sources_entry_def split: sum.splits)
  define t1 where "t1 = (case se_binary_packages entry of None \<Rightarrow> t
                         | Some names \<Rightarrow> snd (convert_binary_packages names t))"
  define t2 where "t2 = (case se_maintainer entry of None \<Rightarrow> t1
                         | Some m \<Rightarrow> snd (convert_maintainer m t1))"
  define t3 where "t3 = (case se_uploaders entry of None \<Rightarrow> t2
                         | Some us \<Rightarrow> snd (convert_uploaders us t2))"
  have res: "t' = t3"
    and ce: "ce = \<lparr>ce_architectures =
                     map_option (\<lambda>names. [a \<leftarrow> architectures (db t). a \<in> set names])
                       (se_architectures entry),
                   ce_binary_packages =
                     map_option (\<lambda>names. fst (convert_binary_packages names t))
                       (se_binary_packages entry),
                   ce_maintainer = map_option (\<lambda>m. fst (convert_maintainer m t1))
                       (se_maintainer entry),
                   ce_uploaders = map_option (\<lambda>us. fst (convert_uploaders us t2))
                       (se_uploaders entry),
                   ce_other = se_other entry\<rparr>"
    using assms entry
    by (auto simp: extract_information_from_sources_entry_def t1_def t2_def t3_def Let_def
        split: option.splits prod.splits)
  have f1: "source_packages (db t1) = source_packages (db t) \<and>
            next_source_package_pk (db t1) = next_source_package_pk (db t) \<and>
            source_package_names (db t1) = source_package_names (db t) \<and>
            repository_entries (db t1) = repository_entries (db t) \<and>
            all_repository_entries t1 = all_repository_entries t \<and>
            (\<exists>bs. events t1 = events t @ map new_binary_package_event bs)"
  proof (cases "se_binary_packages entry")
    case None
    then show ?thesis by (simp add: t1_def)
  next
    case (Some names)
    then show ?thesis
      using foldl_create_binary_package_name
      by (auto simp: t1_def convert_binary_packages_def Let_def)
  qed
  have f2: "source_packages (db t2) = source_packages (db t1) \<and>
            next_source_package_pk (db t2) = next_source_package_pk (db t1) \<and>
            source_package_names (db t2) = source_package_names (db t1) \<and>
            repository_entries (db t2) = repository_entries (db t1) \<and>
            all_repository_entries t2 = all_repository_entries t1 \<and>
            events t2 = events t1"
  proof (cases "se_maintainer entry")
    case None
    then show ?thesis by (simp add: t2_def)
  next
    case (Some m)
    then show ?thesis
      using convert_maintainer_frame [of m t1 "fst (convert_maintainer m t1)" "snd (convert_maintainer m t1)"]
      by (simp add: t2_def)
  qed
  have f3: "source_packages (db t3) = source_packages (db t2) \<and>
            next_source_package_pk (db t3) = next_source_package_pk (db t2) \<and>
            source_package_names (db t3) = source_package_names (db t2) \<and>
            repository_entries (db t3) = repository_entries (db t2) \<and>
            all_repository_entries t3 = all_repository_entries t2 \<and>
            events t3 = events t2"
  proof (cases "se_uploaders entry")
    case None
    then show ?thesis by (simp add: t3_def)
  next
    case (Some us)
    then show ?thesis
      using foldl_convert_uploader by (simp add: t3_def convert_uploaders_def Let_def)
  qed
  have m: "map_option (\<lambda>m. fst (convert_maintainer m t1)) (se_maintainer entry) =
           map_option (\<lambda>m. (fst m, name_or_empty (snd m))) (se_maintainer entry)"
    by (simp add: convert_maintainer_def Let_def)
  have u: "map_option (\<lambda>us. fst (convert_uploaders us t2)) (se_uploaders entry) =
           map_option (map (\<lambda>u. (fst u, name_or_empty (snd u)))) (se_uploaders entry)"
    by (simp add: convert_uploaders_def Let_def)
  show "\<exists>entry. extract stanza = Inr entry \<and>
           ce_other ce = se_other entry \<and>
           ce_architectures ce =
             map_option (\<lambda>names. [a \<leftarrow> architectures (db t). a \<in> set names])
               (se_architectures entry) \<and>
           ce_maintainer ce =
             map_option (\<lambda>m. (fst m, name_or_empty (snd m))) (se_maintainer entry) \<and>
           ce_uploaders ce =
             map_option (map (\<lambda>u. (fst u, name_or_empty (snd u)))) (se_uploaders entry) \<and>
           ce_binary_packages ce =
             map_option (\<lambda>names. fst (convert_binary_packages names t))
               (se_binary_packages entry)"
    using entry ce m u by simp
  show "source_packages (db t') = source_packages (db t)" using res f1 f2 f3 by simp
  show "next_source_package_pk (db t') = next_source_package_pk (db t)"
    using res f1 f2 f3 by simp
  show "source_package_names (db t') = source_package_names (db t)" using res f1 f2 f3 by simp
  show "repository_entries (db t') = repository_entries (db t)" using res f1 f2 f3 by simp
  show "all_repository_entries t' = all_repository_entries t" using res f1 f2 f3 by simp
  show "\<exists>bs. events t' = events t @ map new_binary_package_event bs"
    using res f1 f2 f3 by auto
qed

lemma extract_information_returns:
  assumes "extract stanza = Inr entry"
  shows "\<exists>ce t'. extract_information_from_sources_entry extract stanza t = Inr (ce, t')"
  using assms
  by (simp add: extract_information_from_sources_entry_def Let_def split: prod.splits)

section \<open>Properties of the creation of names and versions\<close>

lemma get_or_create_source_package_name_frame:
  "source_packages (db (get_or_create_source_package_name n t)) = source_packages (db t) \<and>
   next_source_package_pk (db (get_or_create_source_package_name n t)) =
     next_source_package_pk (db t) \<and>
   repository_entries (db (get_or_create_source_package_name n t)) =
     repository_entries (db t) \<and>
   architectures (db (get_or_create_source_package_name n t)) = architectures (db t) \<and>
   all_repository_entries (get_or_create_source_package_name n t) = all_repository_entries t \<and>
   events (get_or_create_source_package_name n t) =
     events t @ (if n \<in> set (source_package_names (db t)) then []
                 else [new_source_package_event n])"
  by (simp add: get_or_create_source_package_name_def raise_event_def
      new_source_package_event_def)

lemma save_new_source_package:
  assumes "\<forall>q \<in> set ps. sp_pk q \<noteq> sp_pk p" and "sp_pk p' = sp_pk p"
  shows "map (\<lambda>q. if sp_pk q = sp_pk p' then p' else q) (ps @ [p]) = ps @ [p']"
  using assms by (induction ps) simp_all

lemma create_source_package_result:
  assumes fresh: "\<forall>q \<in> set (source_packages (db t)). sp_pk q \<noteq> next_source_package_pk (db t)"
    and ex: "extract stanza = Inr entry"
  shows "\<exists>ce p t'. create_source_package extract stanza n v t = Inr (p, t') \<and>
           p = update_source_package ce (new_source_package (next_source_package_pk (db t)) n v) \<and>
           ce_other ce = se_other entry \<and>
           ce_architectures ce =
             map_option (\<lambda>names. [a \<leftarrow> architectures (db t). a \<in> set names])
               (se_architectures entry) \<and>
           ce_maintainer ce =
             map_option (\<lambda>m. (fst m, name_or_empty (snd m))) (se_maintainer entry) \<and>
           ce_uploaders ce =
             map_option (map (\<lambda>u. (fst u, name_or_empty (snd u)))) (se_uploaders entry) \<and>
           source_packages (db t') = source_packages (db t) @ [p] \<and>
           repository_entries (db t') = repository_entries (db t) \<and>
           all_repository_entries t' = all_repository_entries t \<and>
           (\<exists>bs. events t' = events t @
                   new_version_event n v (next_source_package_pk (db t)) #
                   map new_binary_package_event bs)"
proof -
  let ?pk = "next_source_package_pk (db t)"
  let ?new = "new_source_package ?pk n v"
  let ?ta = "t\<lparr>db := (db t)\<lparr>source_packages := source_packages (db t) @ [?new],
                             next_source_package_pk := Suc ?pk\<rparr>\<rparr>"
  let ?tb = "raise_event ''new-source-package-version''
               [(''name'', Str n), (''version'', Str v), (''pk'', Pk ?pk)] ?ta"
  from extract_information_returns [of "extract" stanza entry ?tb, OF ex] obtain ce t3 where
    x: "extract_information_from_sources_entry extract stanza ?tb = Inr (ce, t3)" by blast
  note fr = extract_information_frame [OF x]
  from fr(1) ex have ce:
    "ce_other ce = se_other entry"
    "ce_architectures ce =
       map_option (\<lambda>names. [a \<leftarrow> architectures (db t). a \<in> set names]) (se_architectures entry)"
    "ce_maintainer ce = map_option (\<lambda>m. (fst m, name_or_empty (snd m))) (se_maintainer entry)"
    "ce_uploaders ce =
       map_option (map (\<lambda>u. (fst u, name_or_empty (snd u)))) (se_uploaders entry)"
    by (auto simp: raise_event_def)
  let ?p = "update_source_package ce ?new"
  let ?t' = "t3\<lparr>db := save_source_package ?p (db t3)\<rparr>"
  have res: "create_source_package extract stanza n v t = Inr (?p, ?t')"
    using x by (simp add: create_source_package_def Let_def)
  have pk: "sp_pk ?p = sp_pk ?new"
    by (simp add: update_source_package_def)
  have sps: "source_packages (db t3) = source_packages (db t) @ [?new]"
    using fr(2) by (simp add: raise_event_def)
  have fresh': "\<forall>q \<in> set (source_packages (db t)). sp_pk q \<noteq> sp_pk ?new"
    using fresh by (simp add: new_source_package_def)
  have "source_packages (db ?t') =
          map (\<lambda>q. if sp_pk q = sp_pk ?p then ?p else q) (source_packages (db t) @ [?new])"
    by (simp add: sps save_source_package_def)
  also have "\<dots> = source_packages (db t) @ [?p]"
    by (rule save_new_source_package [OF fresh' pk])
  finally have saved: "source_packages (db ?t') = source_packages (db t) @ [?p]" .
  have ents: "repository_entries (db ?t') = repository_entries (db t)"
    using fr(5) by (simp add: save_source_package_def raise_event_def)
  have proc: "all_repository_entries ?t' = all_repository_entries t"
    using fr(6) by (simp add: raise_event_def)
  from fr(7) obtain bs where "events t3 = events ?tb @ map new_binary_package_event bs" by blast
  then have ev: "events ?t' = events t @ new_version_event n v ?pk # map new_binary_package_event bs"
    by (simp add: raise_event_def new_version_event_def)
  show ?thesis
    using res ce saved ents proc ev by blast
qed

lemma stanza_source_package_old:
  assumes pkg: "map_of stanza ''package'' = Some n" and ver: "map_of stanza ''version'' = Some v"
    and f: "find_source_package n v (db t) = Some p"
  shows "\<exists>t'. stanza_source_package extract stanza t = Inr (p, t') \<and>
          source_packages (db t') = source_packages (db t) \<and>
          binary_package_names (db t') = binary_package_names (db t) \<and>
          events t' = events t @ (if n \<in> set (source_package_names (db t)) then []
                                  else [new_source_package_event n]) \<and>
          (\<forall>e \<in> set (events t') - set (events t). ev_name e \<noteq> ''new-source-package-version'')"
proof -
  let ?ta = "get_or_create_source_package_name n t"
  note fr = get_or_create_source_package_name_frame [of n t]
  have f1: "find_source_package n v (db ?ta) = Some p"
    using f fr by (simp add: find_source_package_def)
  have res: "stanza_source_package extract stanza t = Inr (p, ?ta)"
    using pkg ver f1 by (simp add: stanza_source_package_def Let_def)
  have bin: "binary_package_names (db ?ta) = binary_package_names (db t)"
    by (simp add: get_or_create_source_package_name_def raise_event_def)
  have noev: "\<forall>e \<in> set (events ?ta) - set (events t). ev_name e \<noteq> ''new-source-package-version''"
    using fr by (auto simp: new_source_package_event_def)
  show ?thesis
    using res fr bin noev by blast
qed

lemma stanza_source_package_new:
  assumes pkg: "map_of stanza ''package'' = Some n" and ver: "map_of stanza ''version'' = Some v"
    and fresh: "\<forall>q \<in> set (source_packages (db t)). sp_pk q \<noteq> next_source_package_pk (db t)"
    and none: "find_source_package n v (db t) = None" and ex: "extract stanza = Inr entry"
  shows "\<exists>p t' bs. stanza_source_package extract stanza t = Inr (p, t') \<and>
          source_packages (db t') = source_packages (db t) @ [p] \<and>
          sp_pk p = next_source_package_pk (db t) \<and> sp_name p = n \<and> sp_version p = v \<and>
          sp_other p = se_other entry \<and>
          sp_architectures p =
            (case se_architectures entry of None \<Rightarrow> []
             | Some names \<Rightarrow> [a \<leftarrow> architectures (db t). a \<in> set names]) \<and>
          sp_maintainer p =
            map_option (\<lambda>m. (fst m, name_or_empty (snd m))) (se_maintainer entry) \<and>
          sp_uploaders p =
            (case se_uploaders entry of None \<Rightarrow> []
             | Some us \<Rightarrow> map (\<lambda>u. (fst u, name_or_empty (snd u))) us) \<and>
          events t' = events t @
            (if n \<in> set (source_package_names (db t)) then []
             else [new_source_package_event n]) @
            new_version_event n v (next_source_package_pk (db t)) #
            map new_binary_package_event bs"
proof -
  from none ex have a: "find_source_package n v (db t) = None \<and> extract stanza = Inr entry" by simp
  let ?ta = "get_or_create_source_package_name n t"
  note fr = get_or_create_source_package_name_frame [of n t]
  have f1: "find_source_package n v (db ?ta) = None"
    using a fr by (simp add: find_source_package_def)
  have fresh1: "\<forall>q \<in> set (source_packages (db ?ta)). sp_pk q \<noteq> next_source_package_pk (db ?ta)"
    using fresh fr by simp
  from create_source_package_result [of ?ta "extract" stanza entry n v, OF fresh1 ex] obtain ce p t' bs where
    c: "create_source_package extract stanza n v ?ta = Inr (p, t')"
       "p = update_source_package ce (new_source_package (next_source_package_pk (db ?ta)) n v)"
       "ce_other ce = se_other entry"
       "ce_architectures ce =
          map_option (\<lambda>names. [a \<leftarrow> architectures (db ?ta). a \<in> set names])
            (se_architectures entry)"
       "ce_maintainer ce = map_option (\<lambda>m. (fst m, name_or_empty (snd m))) (se_maintainer entry)"
       "ce_uploaders ce =
          map_option (map (\<lambda>u. (fst u, name_or_empty (snd u)))) (se_uploaders entry)"
       "source_packages (db t') = source_packages (db ?ta) @ [p]"
       "events t' = events ?ta @ new_version_event n v (next_source_package_pk (db ?ta)) #
                      map new_binary_package_event bs"
    by blast
  have res: "stanza_source_package extract stanza t = Inr (p, t')"
    using pkg ver f1 c(1) by (simp add: stanza_source_package_def Let_def)
  have fields: "sp_pk p = next_source_package_pk (db t)" "sp_name p = n" "sp_version p = v"
    "sp_other p = se_other entry"
    using c(2,3) fr by (simp_all add: update_source_package_def new_source_package_def)
  have arch: "sp_architectures p =
                (case se_architectures entry of None \<Rightarrow> []
                 | Some names \<Rightarrow> [a \<leftarrow> architectures (db t). a \<in> set names])"
    using c(2,4) fr
    by (simp add: update_source_package_def new_source_package_def split: option.splits)
  have maint: "sp_maintainer p =
                 map_option (\<lambda>m. (fst m, name_or_empty (snd m))) (se_maintainer entry)"
    using c(2,5)
    by (simp add: update_source_package_def new_source_package_def split: option.splits)
  have upl: "sp_uploaders p =
               (case se_uploaders entry of None \<Rightarrow> []
                | Some us \<Rightarrow> map (\<lambda>u. (fst u, name_or_empty (snd u))) us)"
    using c(2,6)
    by (simp add: update_source_package_def new_source_package_def split: option.splits)
  have sps: "source_packages (db t') = source_packages (db t) @ [p]"
    using c(7) fr by simp
  have ev: "events t' = events t @
              (if n \<in> set (source_package_names (db t)) then []
               else [new_source_package_event n]) @
              new_version_event n v (next_source_package_pk (db t)) #
              map new_binary_package_event bs"
    using c(8) fr by simp
  show ?thesis
    using res sps fields arch maint upl ev by blast
qed



section \<open>Properties of the processing of a stanza\<close>

lemma has_source_package_iff:
  "has_source_package r p d \<longleftrightarrow>
     (\<exists>e \<in> set (repository_entries d). re_repository e = r \<and> re_source_package e = sp_pk p)"
  by (simp add: has_source_package_def list_ex_iff)

lemma has_source_package_name_iff:
  "has_source_package_name r n d \<longleftrightarrow>
     (\<exists>e \<in> set (repository_entries d). re_repository e = r \<and>
        (\<exists>p \<in> set (source_packages d). sp_pk p = re_source_package e \<and> sp_name p = n))"
  by (simp add: has_source_package_name_def list_ex_iff)

lemma has_source_package_has_name:
  "has_source_package r p d \<Longrightarrow> p \<in> set (source_packages d) \<Longrightarrow>
   has_source_package_name r (sp_name p) d"
proof -
  assume h: "has_source_package r p d" and p: "p \<in> set (source_packages d)"
  from h obtain e where e: "e \<in> set (repository_entries d)" "re_repository e = r"
    "re_source_package e = sp_pk p"
    unfolding has_source_package_iff by blast
  from p e(3) have "\<exists>q \<in> set (source_packages d). sp_pk q = re_source_package e \<and> sp_name q = sp_name p"
    by (intro bexI [of _ p]) simp_all
  with e(1,2) show ?thesis
    unfolding has_source_package_name_iff by blast
qed

lemma get_repository_entry_Some:
  "has_source_package r p d \<Longrightarrow>
   \<exists>e. get_repository_entry r p d = Some e \<and> e \<in> set (repository_entries d) \<and>
       re_repository e = r \<and> re_source_package e = sp_pk p"
proof -
  assume "has_source_package r p d"
  then have "get_repository_entry r p d \<noteq> None"
    by (auto simp: has_source_package_iff get_repository_entry_def find_None_iff)
  then obtain e where e: "get_repository_entry r p d = Some e" by blast
  then have "e \<in> set (repository_entries d) \<and> re_repository e = r \<and> re_source_package e = sp_pk p"
    unfolding get_repository_entry_def find_Some_iff by (auto simp: nth_mem)
  with e show ?thesis by blast
qed

lemma stanza_repository_entry_new:
  assumes "\<not> has_source_package r p (db t)"
  shows "\<exists>e t'. stanza_repository_entry r stanza p t = Inr t' \<and>
           repository_entries (db t') = repository_entries (db t) @ [e] \<and>
           re_id e = next_repository_entry_id (db t) \<and>
           re_repository e = r \<and> re_source_package e = sp_pk p \<and>
           all_repository_entries t' = all_repository_entries t @ [re_id e] \<and>
           source_packages (db t') = source_packages (db t) \<and>
           events t' = events t @
             (if has_source_package_name r (sp_name p) (db t) then []
              else [in_repository_event r p]) @ [version_in_repository_event r p]"
  using assms
  by (simp add: stanza_repository_entry_def add_source_package_def raise_event_def
      add_processed_repository_entry_def in_repository_event_def
      version_in_repository_event_def Let_def)

lemma stanza_repository_entry_old:
  assumes "has_source_package r p (db t)"
  shows "\<exists>e. e \<in> set (repository_entries (db t)) \<and> re_repository e = r \<and>
           re_source_package e = sp_pk p \<and>
           stanza_repository_entry r stanza p t =
             Inr (t\<lparr>all_repository_entries := all_repository_entries t @ [re_id e]\<rparr>)"
proof -
  from get_repository_entry_Some [OF assms] obtain e where
    e: "get_repository_entry r p (db t) = Some e" "e \<in> set (repository_entries (db t))"
       "re_repository e = r" "re_source_package e = sp_pk p" by blast
  have "stanza_repository_entry r stanza p t =
          Inr (t\<lparr>all_repository_entries := all_repository_entries t @ [re_id e]\<rparr>)"
    using assms e(1) by (simp add: stanza_repository_entry_def add_processed_repository_entry_def)
  with e show ?thesis by blast
qed

text \<open>
  C1. Once the version \<open>p\<close> named by a stanza exists, the rest of the stanza's processing
  for repository \<open>r\<close> does this. When \<open>r\<close> has no entry for any version of the name of \<open>p\<close>,
  the event \<open>new-source-package-in-repository\<close> (name, repository) is raised. Whenever \<open>r\<close>
  has no entry for \<open>p\<close>, a new entry for \<open>(r, p)\<close> is created and the event
  \<open>new-source-package-version-in-repository\<close> (name, version, repository) is raised, and
  the first event is raised only when \<open>r\<close> has no entry for the name. When the entry
  exists already, no event is raised and no record changes: the only effect is that the id
  of the existing entry is recorded as still present.
\<close>

theorem stanza_repository_entry_events:
  "(p \<in> set (source_packages (db t)) \<and> \<not> has_source_package_name r (sp_name p) (db t) \<longrightarrow>
      (\<exists>e t'. stanza_repository_entry r stanza p t = Inr t' \<and>
         events t' = events t @ [in_repository_event r p, version_in_repository_event r p] \<and>
         repository_entries (db t') = repository_entries (db t) @ [e] \<and>
         re_repository e = r \<and> re_source_package e = sp_pk p \<and>
         all_repository_entries t' = all_repository_entries t @ [re_id e])) \<and>
   (\<not> has_source_package r p (db t) \<longrightarrow>
      (\<exists>e t'. stanza_repository_entry r stanza p t = Inr t' \<and>
         events t' = events t @
           (if has_source_package_name r (sp_name p) (db t) then []
            else [in_repository_event r p]) @ [version_in_repository_event r p] \<and>
         repository_entries (db t') = repository_entries (db t) @ [e] \<and>
         re_repository e = r \<and> re_source_package e = sp_pk p \<and>
         all_repository_entries t' = all_repository_entries t @ [re_id e])) \<and>
   (has_source_package r p (db t) \<longrightarrow>
      (\<exists>e. e \<in> set (repository_entries (db t)) \<and> re_repository e = r \<and>
         re_source_package e = sp_pk p \<and>
         stanza_repository_entry r stanza p t =
           Inr (t\<lparr>all_repository_entries := all_repository_entries t @ [re_id e]\<rparr>)))"
proof (intro conjI impI)
  assume a: "p \<in> set (source_packages (db t)) \<and> \<not> has_source_package_name r (sp_name p) (db t)"
  then have "\<not> has_source_package r p (db t)"
    using has_source_package_has_name by blast
  from stanza_repository_entry_new [OF this, of stanza] a
  show "\<exists>e t'. stanza_repository_entry r stanza p t = Inr t' \<and>
         events t' = events t @ [in_repository_event r p, version_in_repository_event r p] \<and>
         repository_entries (db t') = repository_entries (db t) @ [e] \<and>
         re_repository e = r \<and> re_source_package e = sp_pk p \<and>
         all_repository_entries t' = all_repository_entries t @ [re_id e]"
    by auto
next
  assume "\<not> has_source_package r p (db t)"
  from stanza_repository_entry_new [OF this, of stanza]
  show "\<exists>e t'. stanza_repository_entry r stanza p t = Inr t' \<and>
         events t' = events t @
           (if has_source_package_name r (sp_name p) (db t) then []
            else [in_repository_event r p]) @ [version_in_repository_event r p] \<and>
         repository_entries (db t') = repository_entries (db t) @ [e] \<and>
         re_repository e = r \<and> re_source_package e = sp_pk p \<and>
         all_repository_entries t' = all_repository_entries t @ [re_id e]"
    by blast
next
  assume "has_source_package r p (db t)"
  then show "\<exists>e. e \<in> set (repository_entries (db t)) \<and> re_repository e = r \<and>
         re_source_package e = sp_pk p \<and>
         stanza_repository_entry r stanza p t =
           Inr (t\<lparr>all_repository_entries := all_repository_entries t @ [re_id e]\<rparr>)"
    by (rule stanza_repository_entry_old)
qed

theorem stanza_repository_entry_events_witness:
  "(\<exists>e t'. stanza_repository_entry ''stable'' example_stanza example_package version_task = Inr t' \<and>
      events t' = [in_repository_event ''stable'' example_package,
                   version_in_repository_event ''stable'' example_package] \<and>
      repository_entries (db t') = [e] \<and> all_repository_entries t' = [re_id e]) \<and>
   (\<exists>e. e \<in> set (repository_entries (db listed_task)) \<and>
      stanza_repository_entry ''stable'' example_stanza example_package listed_task =
        Inr (listed_task\<lparr>all_repository_entries := [re_id e]\<rparr>))"
proof -
  have 1: "example_package \<in> set (source_packages (db version_task)) \<and>
           \<not> has_source_package_name ''stable'' (sp_name example_package) (db version_task)"
    by (simp add: version_task_def version_store_def has_source_package_name_def empty_store_def)
  have 2: "has_source_package ''stable'' example_package (db listed_task)"
    by (simp add: listed_task_def listed_store_def has_source_package_def example_entry_def
        example_package_def)
  note th = stanza_repository_entry_events [of example_package _ "''stable''" example_stanza]
  have v: "events version_task = []" "repository_entries (db version_task) = []"
    "all_repository_entries version_task = []"
    by (simp_all add: version_task_def version_store_def empty_store_def)
  from th [of version_task] 1
  obtain e t' where "stanza_repository_entry ''stable'' example_stanza example_package version_task = Inr t'"
    "events t' = events version_task @ [in_repository_event ''stable'' example_package,
                   version_in_repository_event ''stable'' example_package]"
    "repository_entries (db t') = repository_entries (db version_task) @ [e]"
    "all_repository_entries t' = all_repository_entries version_task @ [re_id e]"
    by blast
  then have a: "\<exists>e t'. stanza_repository_entry ''stable'' example_stanza example_package version_task = Inr t' \<and>
      events t' = [in_repository_event ''stable'' example_package,
                   version_in_repository_event ''stable'' example_package] \<and>
      repository_entries (db t') = [e] \<and> all_repository_entries t' = [re_id e]"
    unfolding v by auto
  have l: "all_repository_entries listed_task = []"
    by (simp add: listed_task_def)
  from th [of listed_task] 2
  obtain e where "e \<in> set (repository_entries (db listed_task))"
    "stanza_repository_entry ''stable'' example_stanza example_package listed_task =
       Inr (listed_task\<lparr>all_repository_entries := all_repository_entries listed_task @ [re_id e]\<rparr>)"
    by blast
  then have b: "\<exists>e. e \<in> set (repository_entries (db listed_task)) \<and>
      stanza_repository_entry ''stable'' example_stanza example_package listed_task =
        Inr (listed_task\<lparr>all_repository_entries := [re_id e]\<rparr>)"
    unfolding l by auto
  from a b show ?thesis by blast
qed

section \<open>Properties of the update of a repository's entries\<close>

lemma for_each_invariant:
  assumes step: "\<And>t x t'. I t \<Longrightarrow> x \<in> set xs \<Longrightarrow> body t x = Inr t' \<Longrightarrow> I t'"
    and "I t" and "for_each body xs t = Inr t'"
  shows "I t'"
  using assms
proof (induction xs arbitrary: t)
  case Nil
  then show ?case by simp
next
  case (Cons x xs)
  from Cons.prems(3) obtain t1 where b: "body t x = Inr t1" and r: "for_each body xs t1 = Inr t'"
    by (auto split: sum.splits)
  have "I t1" using Cons.prems(1) [OF Cons.prems(2) _ b] by simp
  moreover have "\<And>t y t'. I t \<Longrightarrow> y \<in> set xs \<Longrightarrow> body t y = Inr t' \<Longrightarrow> I t'"
    by (rule Cons.prems(1)) simp_all
  ultimately show ?case using Cons.IH r by blast
qed

lemma foldl_create_binary_package_name_entries:
  "repository_entries (db (foldl create_binary_package_name t bs)) = repository_entries (db t) \<and>
   next_repository_entry_id (db (foldl create_binary_package_name t bs)) =
     next_repository_entry_id (db t) \<and>
   all_repository_entries (foldl create_binary_package_name t bs) = all_repository_entries t"
  by (induction bs rule: rev_induct)
     (simp_all add: create_binary_package_name_def raise_event_def)

lemma foldl_convert_uploader_entries:
  "repository_entries (db (foldl (convert_uploader ex) t us)) = repository_entries (db t) \<and>
   next_repository_entry_id (db (foldl (convert_uploader ex) t us)) =
     next_repository_entry_id (db t) \<and>
   all_repository_entries (foldl (convert_uploader ex) t us) = all_repository_entries t"
  by (induction us rule: rev_induct)
     (simp_all add: convert_uploader_def get_or_create_contributor_name_def Let_def)

lemma extract_information_entries:
  assumes "extract_information_from_sources_entry extract stanza t = Inr (ce, t')"
  shows "repository_entries (db t') = repository_entries (db t) \<and>
         next_repository_entry_id (db t') = next_repository_entry_id (db t) \<and>
         all_repository_entries t' = all_repository_entries t"
proof -
  from assms obtain entry where entry: "extract stanza = Inr entry"
    by (auto simp: extract_information_from_sources_entry_def split: sum.splits)
  define ta where "ta = (case se_binary_packages entry of None \<Rightarrow> t
                         | Some names \<Rightarrow> snd (convert_binary_packages names t))"
  define tb where "tb = (case se_maintainer entry of None \<Rightarrow> ta
                         | Some m \<Rightarrow> snd (convert_maintainer m ta))"
  define tc where "tc = (case se_uploaders entry of None \<Rightarrow> tb
                         | Some us \<Rightarrow> snd (convert_uploaders us tb))"
  have res: "t' = tc"
    using assms entry
    by (auto simp: extract_information_from_sources_entry_def ta_def tb_def tc_def Let_def
        split: option.splits prod.splits)
  have a: "repository_entries (db ta) = repository_entries (db t) \<and>
           next_repository_entry_id (db ta) = next_repository_entry_id (db t) \<and>
           all_repository_entries ta = all_repository_entries t"
    using foldl_create_binary_package_name_entries
    by (cases "se_binary_packages entry") (simp_all add: ta_def convert_binary_packages_def Let_def)
  have b: "repository_entries (db tb) = repository_entries (db ta) \<and>
           next_repository_entry_id (db tb) = next_repository_entry_id (db ta) \<and>
           all_repository_entries tb = all_repository_entries ta"
    by (cases "se_maintainer entry")
       (simp_all add: tb_def convert_maintainer_def get_or_create_contributor_name_def
          get_or_create_contributor_email_def Let_def)
  have c: "repository_entries (db tc) = repository_entries (db tb) \<and>
           next_repository_entry_id (db tc) = next_repository_entry_id (db tb) \<and>
           all_repository_entries tc = all_repository_entries tb"
    using foldl_convert_uploader_entries
    by (cases "se_uploaders entry") (simp_all add: tc_def convert_uploaders_def Let_def)
  show ?thesis using res a b c by simp
qed

lemma stanza_source_package_entries:
  assumes "stanza_source_package extract stanza t = Inr (p, t')"
  shows "repository_entries (db t') = repository_entries (db t) \<and>
         next_repository_entry_id (db t') = next_repository_entry_id (db t) \<and>
         all_repository_entries t' = all_repository_entries t"
proof -
  from assms obtain n v where n: "map_of stanza ''package'' = Some n"
    and v: "map_of stanza ''version'' = Some v"
    by (auto simp: stanza_source_package_def Let_def split: option.splits)
  let ?ta = "get_or_create_source_package_name n t"
  have fa: "repository_entries (db ?ta) = repository_entries (db t) \<and>
            next_repository_entry_id (db ?ta) = next_repository_entry_id (db t) \<and>
            all_repository_entries ?ta = all_repository_entries t"
    by (simp add: get_or_create_source_package_name_def raise_event_def)
  show ?thesis
  proof (cases "find_source_package n v (db ?ta)")
    case (Some q)
    then have "t' = ?ta" using assms n v by (simp add: stanza_source_package_def Let_def)
    with fa show ?thesis by simp
  next
    case None
    then have c: "create_source_package extract stanza n v ?ta = Inr (p, t')"
      using assms n v by (simp add: stanza_source_package_def Let_def)
    let ?new = "new_source_package (next_source_package_pk (db ?ta)) n v"
    let ?tb = "raise_event ''new-source-package-version''
                 [(''name'', Str n), (''version'', Str v), (''pk'', Pk (next_source_package_pk (db ?ta)))]
                 (?ta\<lparr>db := (db ?ta)\<lparr>source_packages := source_packages (db ?ta) @ [?new],
                        next_source_package_pk := Suc (next_source_package_pk (db ?ta))\<rparr>\<rparr>)"
    from c obtain ce tc where
      x: "extract_information_from_sources_entry extract stanza ?tb = Inr (ce, tc)"
      and t': "t' = tc\<lparr>db := save_source_package (update_source_package ce ?new) (db tc)\<rparr>"
      by (auto simp: create_source_package_def Let_def split: sum.splits)
    from extract_information_entries [OF x] t' fa show ?thesis
      by (simp add: save_source_package_def raise_event_def)
  qed
qed

lemma entry_ids_inj:
  "entry_ids_ok d \<Longrightarrow> e \<in> set (repository_entries d) \<Longrightarrow> e' \<in> set (repository_entries d) \<Longrightarrow>
   re_id e = re_id e' \<Longrightarrow> e = e'"
  by (auto simp: entry_ids_ok_def distinct_map inj_on_def)

lemma stanza_repository_entry_ok:
  assumes ok: "recorded_entries_ok r t"
    and run: "stanza_repository_entry r stanza p t = Inr t'"
  shows "recorded_entries_ok r t'"
proof (cases "has_source_package r p (db t)")
  case True
  from stanza_repository_entry_old [OF True, of stanza] run obtain e where
    "e \<in> set (repository_entries (db t))" "re_repository e = r"
    "t' = t\<lparr>all_repository_entries := all_repository_entries t @ [re_id e]\<rparr>"
    by auto
  with ok show ?thesis by (auto simp: recorded_entries_ok_def)
next
  case False
  from stanza_repository_entry_new [OF False, of stanza] run obtain e where
    e: "repository_entries (db t') = repository_entries (db t) @ [e]"
       "re_id e = next_repository_entry_id (db t)" "re_repository e = r"
       "all_repository_entries t' = all_repository_entries t @ [re_id e]"
    by auto
  have nx: "next_repository_entry_id (db t') = Suc (next_repository_entry_id (db t))"
    using False run
    by (auto simp: stanza_repository_entry_def add_source_package_def raise_event_def
        add_processed_repository_entry_def Let_def)
  have "entry_ids_ok (db t')"
    using ok e(1,2) nx
    by (auto simp: recorded_entries_ok_def entry_ids_ok_def list_all_iff less_Suc_eq)
  moreover have "\<forall>i \<in> set (all_repository_entries t').
        \<exists>e \<in> set (repository_entries (db t')). re_id e = i \<and> re_repository e = r"
    using ok e by (auto simp: recorded_entries_ok_def)
  ultimately show ?thesis by (simp add: recorded_entries_ok_def)
qed

lemma update_stanza_ok:
  assumes ok: "recorded_entries_ok r t"
    and run: "update_stanza allow_package extract r t stanza = Inr t'"
  shows "recorded_entries_ok r t'"
proof -
  obtain allow implemented where al: "allow_package stanza = (allow, implemented)"
    by (cases "allow_package stanza")
  show ?thesis
  proof (cases "case allow of None \<Rightarrow> False | Some a \<Rightarrow> implemented \<and> \<not> a")
    case True
    then have "t' = t" using run al by (auto simp: update_stanza_def)
    with ok show ?thesis by simp
  next
    case False
    then obtain p ta where s: "stanza_source_package extract stanza t = Inr (p, ta)"
      and e: "stanza_repository_entry r stanza p ta = Inr t'"
      using run al by (auto simp: update_stanza_def split: sum.splits)
    from stanza_source_package_entries [OF s] ok have "recorded_entries_ok r ta"
      by (simp add: recorded_entries_ok_def entry_ids_ok_def)
    from stanza_repository_entry_ok [OF this e] show ?thesis .
  qed
qed

lemma update_sources_files_ok:
  assumes ok: "recorded_entries_ok r t"
    and run: "for_each (update_sources_file read allow_package extract r) files t = Inr t'"
  shows "recorded_entries_ok r t'"
proof (rule for_each_invariant [where I = "recorded_entries_ok r", OF _ ok run])
  fix ta f tb
  assume a: "recorded_entries_ok r ta"
    and b: "update_sources_file read allow_package extract r ta f = Inr tb"
  from b obtain stanzas where
    "for_each (update_stanza allow_package extract r) stanzas ta = Inr tb"
    by (auto simp: update_sources_file_def split: option.splits)
  then show "recorded_entries_ok r tb"
    using for_each_invariant [where I = "recorded_entries_ok r"
        and body = "update_stanza allow_package extract r"] update_stanza_ok a
    by blast
qed

lemma foldl_add_processed:
  "db (foldl (\<lambda>t e. add_processed_repository_entry e t) t es) = db t \<and>
   events (foldl (\<lambda>t e. add_processed_repository_entry e t) t es) = events t \<and>
   all_repository_entries (foldl (\<lambda>t e. add_processed_repository_entry e t) t es) =
     all_repository_entries t @ map re_id es"
  by (induction es rule: rev_induct) (simp_all add: add_processed_repository_entry_def)

lemma marked_entries_iff:
  "e \<in> set (marked_entries r packages d) \<longleftrightarrow>
     e \<in> set (repository_entries d) \<and> re_repository e = r \<and>
     (\<exists>p. entry_source_package d e = Some p \<and> packages (sp_name p) = Some (sp_version p))"
  by (auto simp: marked_entries_def split: option.splits)

lemma mark_sources_file_not_processed_result:
  assumes "mark_sources_file_not_processed read r t f = Inr t'"
  shows "db t' = db t \<and> events t' = events t \<and>
         set (all_repository_entries t') =
           set (all_repository_entries t) \<union>
           re_id ` {e \<in> set (repository_entries (db t)).
                     re_repository e = r \<and> recorded_in_cached_file read (db t) f e}"
proof -
  from assms obtain stanzas packages where s: "read f = Some stanzas"
    and p: "packages_of stanzas Map.empty = Inr packages"
    and t': "t' = foldl (\<lambda>t e. add_processed_repository_entry e t) t
                    (marked_entries r packages (db t))"
    by (auto simp: mark_sources_file_not_processed_def split: option.splits sum.splits)
  have "set (marked_entries r packages (db t)) =
          {e \<in> set (repository_entries (db t)).
             re_repository e = r \<and> recorded_in_cached_file read (db t) f e}"
    using s p by (auto simp: marked_entries_iff recorded_in_cached_file_def split: option.splits)
  then show ?thesis
    using foldl_add_processed [of t "marked_entries r packages (db t)"] t' by simp
qed

lemma mark_sources_files_result:
  assumes "for_each (mark_sources_file_not_processed read r) fs t = Inr t'"
  shows "db t' = db t \<and> events t' = events t \<and>
         set (all_repository_entries t') =
           set (all_repository_entries t) \<union>
           re_id ` {e \<in> set (repository_entries (db t)).
                     re_repository e = r \<and> (\<exists>f \<in> set fs. recorded_in_cached_file read (db t) f e)}"
  using assms
proof (induction fs arbitrary: t)
  case Nil
  then show ?case by simp
next
  case (Cons f fs)
  from Cons.prems obtain ta where a: "mark_sources_file_not_processed read r t f = Inr ta"
    and b: "for_each (mark_sources_file_not_processed read r) fs ta = Inr t'"
    by (auto split: sum.splits)
  note ra = mark_sources_file_not_processed_result [OF a]
  note rb = Cons.IH [OF b]
  from ra have d: "db ta = db t" by simp
  have "set (all_repository_entries t') =
          set (all_repository_entries t) \<union>
          re_id ` {e \<in> set (repository_entries (db t)).
                    re_repository e = r \<and> recorded_in_cached_file read (db t) f e} \<union>
          re_id ` {e \<in> set (repository_entries (db t)).
                    re_repository e = r \<and> (\<exists>f \<in> set fs. recorded_in_cached_file read (db t) f e)}"
    using ra rb by (simp add: d)
  also have "\<dots> = set (all_repository_entries t) \<union>
          re_id ` {e \<in> set (repository_entries (db t)).
                    re_repository e = r \<and>
                    (\<exists>f \<in> set (f # fs). recorded_in_cached_file read (db t) f e)}"
    by auto
  finally show ?case using ra rb by simp
qed

lemma raise_lost_entries_result:
  assumes "for_each raise_lost_entry es t = Inr t'"
  shows "db t' = db t \<and> all_repository_entries t' = all_repository_entries t \<and>
         (\<exists>evs. events t' = events t @ evs \<and> map (lost_entry_event (db t)) es = map Some evs)"
  using assms
proof (induction es arbitrary: t)
  case Nil
  then show ?case by simp
next
  case (Cons e es)
  from Cons.prems obtain ta where a: "raise_lost_entry t e = Inr ta"
    and b: "for_each raise_lost_entry es ta = Inr t'"
    by (auto split: sum.splits)
  from a obtain ev where ev: "lost_entry_event (db t) e = Some ev"
    and ta: "ta = t\<lparr>events := events t @ [ev]\<rparr>"
    by (auto simp: raise_lost_entry_def lost_entry_event_def raise_event_def split: option.splits)
  from Cons.IH [OF b] obtain evs where
    r: "db t' = db ta" "all_repository_entries t' = all_repository_entries ta"
       "events t' = events ta @ evs" "map (lost_entry_event (db ta)) es = map Some evs"
    by blast
  have "events t' = events t @ (ev # evs)" using r(3) ta by simp
  moreover have "map (lost_entry_event (db t)) (e # es) = map Some (ev # evs)"
    using r(4) ev ta by simp
  ultimately show ?case using r(1,2) ta by auto
qed

lemma update_repository_entries_result:
  assumes "update_repository_entries r t = Inr t'"
  shows "repository_entries (db t') =
           [e \<leftarrow> repository_entries (db t).
              re_repository e \<noteq> r \<or> re_id e \<in> set (all_repository_entries t)] \<and>
         (\<exists>evs. events t' = events t @ evs \<and>
            map (lost_entry_event (db t))
              [e \<leftarrow> repository_entries (db t).
                 \<not> (re_repository e \<noteq> r \<or> re_id e \<in> set (all_repository_entries t))] =
            map Some evs) \<and>
         source_packages (db t') = source_packages (db t) \<and>
         source_package_names (db t') = source_package_names (db t) \<and>
         binary_package_names (db t') = binary_package_names (db t) \<and>
         next_repository_entry_id (db t') = next_repository_entry_id (db t) \<and>
         all_repository_entries t' = []"
proof -
  from assms obtain ta where a: "for_each raise_lost_entry (stale_entries r t) t = Inr ta"
    and t': "t' = clear_processed_repository_entries (delete_stale_entries r ta)"
    by (auto simp: update_repository_entries_def split: sum.splits)
  from raise_lost_entries_result [OF a] obtain evs where
    r: "db ta = db t" "all_repository_entries ta = all_repository_entries t"
       "events ta = events t @ evs" "map (lost_entry_event (db t)) (stale_entries r t) = map Some evs"
    by blast
  have st: "stale_entries r t =
              [e \<leftarrow> repository_entries (db t).
                 \<not> (re_repository e \<noteq> r \<or> re_id e \<in> set (all_repository_entries t))]"
    by (simp add: stale_entries_def)
  have "repository_entries (db t') =
          [e \<leftarrow> repository_entries (db t).
             re_repository e \<noteq> r \<or> re_id e \<in> set (all_repository_entries t)]"
    using t' r(1,2)
    by (simp add: clear_processed_repository_entries_def delete_stale_entries_def)
  moreover have "events t' = events t @ evs"
    using t' r(3) by (simp add: clear_processed_repository_entries_def delete_stale_entries_def)
  moreover have "source_packages (db t') = source_packages (db t) \<and>
         source_package_names (db t') = source_package_names (db t) \<and>
         binary_package_names (db t') = binary_package_names (db t) \<and>
         next_repository_entry_id (db t') = next_repository_entry_id (db t) \<and>
         all_repository_entries t' = []"
    using t' r(1) by (simp add: clear_processed_repository_entries_def delete_stale_entries_def)
  ultimately show ?thesis using r(4) st by auto
qed


lemma process_repository_example:
  "process_repository example_apt allow_all example_extract busy_task
     (''stable'', [''main_Sources'']) = Inr busy_result"
  by (simp add: process_repository_def example_apt_def allow_all_def busy_task_def busy_store_def
      update_sources_file_def example_files_def update_stanza_def stanza_source_package_def
      example_stanza_def get_or_create_source_package_name_def find_source_package_def
      example_package_def package_b_def package_c_def new_source_package_def
      stanza_repository_entry_def has_source_package_def example_entry_def entry_b_def entry_c_def
      get_repository_entry_def add_processed_repository_entry_def
      mark_sources_file_not_processed_def marked_entries_def entry_source_package_def
      update_repository_entries_def stale_entries_def raise_lost_entry_def raise_event_def
      delete_stale_entries_def clear_processed_repository_entries_def lost_c_event_def
      busy_result_def)


section \<open>Properties of the removal of obsolete packages\<close>

lemma raise_events_of_result:
  "db (raise_events_of g qs t) = db t \<and>
   all_repository_entries (raise_events_of g qs t) = all_repository_entries t \<and>
   events (raise_events_of g qs t) = events t @ map (\<lambda>x. event_of (g x)) qs"
  by (induction qs rule: rev_induct)
     (simp_all add: raise_events_of_def raise_event_def event_of_def split: prod.splits)

lemma raise_count_zero_events_result:
  "db (raise_count_zero_events qs_all count_field (Some g) t) = db t \<and>
   all_repository_entries (raise_count_zero_events qs_all count_field (Some g) t) =
     all_repository_entries t \<and>
   events (raise_count_zero_events qs_all count_field (Some g) t) =
     events t @ map (\<lambda>x. event_of (g x)) (count_zero qs_all count_field (db t))"
  by (simp add: raise_count_zero_events_def raise_events_of_result)

lemma remove_obsolete_versions_result:
  "source_packages (db (remove_obsolete_versions t)) =
     [p \<leftarrow> source_packages (db t). count_repository (db t) p \<noteq> 0] \<and>
   source_package_names (db (remove_obsolete_versions t)) = source_package_names (db t) \<and>
   binary_package_names (db (remove_obsolete_versions t)) = binary_package_names (db t) \<and>
   repository_entries (db (remove_obsolete_versions t)) = repository_entries (db t) \<and>
   events (remove_obsolete_versions t) =
     events t @ map (\<lambda>p. event_of (lost_version_event p))
                  (count_zero source_packages count_repository (db t))"
  using raise_count_zero_events_result
    [of source_packages count_repository lost_version_event t]
  by (simp add: remove_obsolete_versions_def remove_query_set_if_count_zero_def
      delete_count_zero_def)

lemma remove_obsolete_names_result:
  "source_package_names (db (remove_obsolete_names t)) =
     [n \<leftarrow> source_package_names (db t). count_source_package_versions (db t) n \<noteq> 0] \<and>
   source_packages (db (remove_obsolete_names t)) = source_packages (db t) \<and>
   binary_package_names (db (remove_obsolete_names t)) = binary_package_names (db t) \<and>
   repository_entries (db (remove_obsolete_names t)) = repository_entries (db t) \<and>
   events (remove_obsolete_names t) =
     events t @ map (\<lambda>n. event_of (lost_source_package_event n))
                  (count_zero source_package_names count_source_package_versions (db t))"
  using raise_count_zero_events_result
    [of source_package_names count_source_package_versions lost_source_package_event t]
  by (simp add: remove_obsolete_names_def remove_query_set_if_count_zero_def
      delete_count_zero_def)

lemma remove_obsolete_binaries_result:
  "binary_package_names (db (remove_obsolete_binaries t)) =
     [b \<leftarrow> binary_package_names (db t). count_sourcepackage (db t) b \<noteq> 0] \<and>
   source_packages (db (remove_obsolete_binaries t)) = source_packages (db t) \<and>
   source_package_names (db (remove_obsolete_binaries t)) = source_package_names (db t) \<and>
   repository_entries (db (remove_obsolete_binaries t)) = repository_entries (db t) \<and>
   events (remove_obsolete_binaries t) =
     events t @ map (\<lambda>b. event_of (lost_binary_package_event b))
                  (count_zero binary_package_names count_sourcepackage (db t))"
  using raise_count_zero_events_result
    [of binary_package_names count_sourcepackage lost_binary_package_event t]
  by (simp add: remove_obsolete_binaries_def remove_query_set_if_count_zero_def
      delete_count_zero_def)

text \<open>
  C3. The removal of obsolete packages that ends a run deletes a version exactly when no
  entry of any repository refers to it, and then deletes a name exactly when none of the
  versions that remain has that name: the versions afterwards are those with an entry, the
  names afterwards are those with a remaining version, both in their order, and the
  entries themselves are not touched.
\<close>

theorem remove_obsolete_packages_counts:
  "source_packages (db (remove_obsolete_packages t)) =
     [p \<leftarrow> source_packages (db t). count_repository (db t) p \<noteq> 0] \<and>
   (\<forall>p \<in> set (source_packages (db t)).
      p \<notin> set (source_packages (db (remove_obsolete_packages t))) \<longleftrightarrow>
      length [e \<leftarrow> repository_entries (db t). re_source_package e = sp_pk p] = 0) \<and>
   source_package_names (db (remove_obsolete_packages t)) =
     [n \<leftarrow> source_package_names (db t).
        count_source_package_versions (db (remove_obsolete_versions t)) n \<noteq> 0] \<and>
   (\<forall>n \<in> set (source_package_names (db t)).
      n \<notin> set (source_package_names (db (remove_obsolete_packages t))) \<longleftrightarrow>
      length [p \<leftarrow> source_packages (db (remove_obsolete_packages t)). sp_name p = n] = 0) \<and>
   repository_entries (db (remove_obsolete_packages t)) = repository_entries (db t)"
proof -
  let ?ta = "remove_obsolete_versions t"
  let ?tb = "remove_obsolete_names ?ta"
  note a = remove_obsolete_versions_result [of t]
  note b = remove_obsolete_names_result [of ?ta]
  note c = remove_obsolete_binaries_result [of ?tb]
  have sp: "source_packages (db (remove_obsolete_packages t)) =
              [p \<leftarrow> source_packages (db t). count_repository (db t) p \<noteq> 0]"
    using a b c by (simp add: remove_obsolete_packages_def)
  have sn: "source_package_names (db (remove_obsolete_packages t)) =
              [n \<leftarrow> source_package_names (db t). count_source_package_versions (db ?ta) n \<noteq> 0]"
    using a b c by (simp add: remove_obsolete_packages_def)
  have re: "repository_entries (db (remove_obsolete_packages t)) = repository_entries (db t)"
    using a b c by (simp add: remove_obsolete_packages_def)
  have cnt: "count_source_package_versions (db ?ta) n =
               length [p \<leftarrow> source_packages (db (remove_obsolete_packages t)). sp_name p = n]" for n
    using a sp by (simp add: count_source_package_versions_def)
  have v: "\<forall>p \<in> set (source_packages (db t)).
      p \<notin> set (source_packages (db (remove_obsolete_packages t))) \<longleftrightarrow>
      length [e \<leftarrow> repository_entries (db t). re_source_package e = sp_pk p] = 0"
    unfolding sp by (simp add: count_repository_def)
  have n: "\<forall>n \<in> set (source_package_names (db t)).
      n \<notin> set (source_package_names (db (remove_obsolete_packages t))) \<longleftrightarrow>
      length [p \<leftarrow> source_packages (db (remove_obsolete_packages t)). sp_name p = n] = 0"
    unfolding sn cnt by simp
  show ?thesis using sp v sn n re by blast
qed

lemma remove_obsolete_packages_example:
  "remove_obsolete_packages busy_result = collected_result"
  by (simp add: remove_obsolete_packages_def remove_obsolete_versions_def
      remove_obsolete_names_def remove_obsolete_binaries_def remove_query_set_if_count_zero_def
      delete_count_zero_def raise_count_zero_events_def raise_events_of_def count_zero_def
      raise_event_def count_repository_def count_source_package_versions_def
      count_sourcepackage_def busy_result_def busy_task_def busy_store_def
      example_package_def package_b_def package_c_def new_source_package_def
      example_entry_def entry_b_def collected_result_def event_of_def
      lost_version_event_def lost_source_package_event_def lost_binary_package_event_def)

theorem remove_obsolete_packages_counts_witness:
  "source_packages (db collected_result) = [example_package, package_b] \<and>
   package_c \<notin> set (source_packages (db collected_result)) \<and>
   example_package \<in> set (source_packages (db collected_result)) \<and>
   ''pkg-c'' \<notin> set (source_package_names (db collected_result)) \<and>
   ''pkg-a'' \<in> set (source_package_names (db collected_result))"
proof -
  have d: "source_packages (db busy_result) = [example_package, package_b, package_c]"
    "repository_entries (db busy_result) = [example_entry, entry_b]"
    "source_package_names (db busy_result) = [''pkg-a'', ''pkg-b'', ''pkg-c'']"
    by (simp_all add: busy_result_def busy_store_def)
  have k: "sp_pk example_package = 1" "sp_pk package_b = 2" "sp_pk package_c = 3"
    "re_source_package example_entry = 1" "re_source_package entry_b = 2"
    "sp_name example_package = ''pkg-a''" "sp_name package_b = ''pkg-b''"
    "sp_name package_c = ''pkg-c''"
    by (simp_all add: example_package_def package_b_def package_c_def new_source_package_def
        example_entry_def entry_b_def)
  note th = remove_obsolete_packages_counts [of busy_result,
      unfolded remove_obsolete_packages_example]
  from th have B: "\<forall>p \<in> set (source_packages (db busy_result)).
      p \<notin> set (source_packages (db collected_result)) \<longleftrightarrow>
      length [e \<leftarrow> repository_entries (db busy_result). re_source_package e = sp_pk p] = 0"
    by blast
  from th have D: "\<forall>n \<in> set (source_package_names (db busy_result)).
      n \<notin> set (source_package_names (db collected_result)) \<longleftrightarrow>
      length [p \<leftarrow> source_packages (db collected_result). sp_name p = n] = 0"
    by blast
  have sp: "source_packages (db collected_result) = [example_package, package_b]"
    by (simp add: collected_result_def)
  have c: "package_c \<notin> set (source_packages (db collected_result))"
    using bspec [OF B, of package_c] by (simp add: d k)
  have a: "example_package \<in> set (source_packages (db collected_result))"
    using bspec [OF B, of example_package] by (simp add: d k)
  have nc: "''pkg-c'' \<notin> set (source_package_names (db collected_result))"
    using bspec [OF D, of "''pkg-c''"] unfolding sp by (simp add: d k)
  have na: "''pkg-a'' \<in> set (source_package_names (db collected_result))"
    using bspec [OF D, of "''pkg-a''"] unfolding sp by (simp add: d k)
  from sp c a nc na show ?thesis by blast
qed



section \<open>Properties of the task's run\<close>

lemma commit_on_success_rollback:
  "commit_on_success block t = Inl (err, t') \<Longrightarrow> db t' = db t"
  by (auto simp: commit_on_success_def split: sum.splits)

lemma execute_body_rollback:
  assumes "execute_body apt allow_package extract force_update t = Inl (err, t')"
  shows "db t' = db t"
proof (cases "update_repositories apt force_update")
  case (Inl e)
  with assms show ?thesis by (simp add: execute_body_def)
next
  case (Inr updated_sources)
  with assms show ?thesis
    by (auto simp: execute_body_def dest: commit_on_success_rollback)
qed

text \<open>
  C5. When \<open>execute\<close> raises, at whatever point and after whatever it has done, the task
  is left with no event at all and the database is the one \<open>execute\<close> started from.
\<close>

theorem execute_atomic:
  assumes "execute apt allow_package extract force_update t = Inl (err, t')"
  shows "events t' = [] \<and> db t' = db t"
proof -
  from assms obtain tf where
    b: "execute_body apt allow_package extract force_update t = Inl (err, tf)"
    and t': "t' = tf\<lparr>events := []\<rparr>"
    by (auto simp: execute_def clear_all_events_on_exception_def split: sum.splits)
  from execute_body_rollback [OF b] t' show ?thesis by simp
qed

lemmas run_defs =
  process_repository_def update_sources_file_def update_stanza_def stanza_source_package_def
  get_or_create_source_package_name_def find_source_package_def create_source_package_def
  new_source_package_def extract_information_from_sources_entry_def convert_binary_packages_def
  create_binary_package_name_def convert_maintainer_def get_or_create_contributor_email_def
  get_or_create_contributor_name_def name_or_empty_def update_source_package_def
  save_source_package_def stanza_repository_entry_def has_source_package_def
  has_source_package_name_def add_source_package_def stanza_get_def get_repository_entry_def
  add_processed_repository_entry_def mark_sources_file_not_processed_def marked_entries_def
  entry_source_package_def update_repository_entries_def stale_entries_def raise_lost_entry_def
  raise_event_def delete_stale_entries_def clear_processed_repository_entries_def

lemma broken_run_body:
  "\<exists>tf. for_each (process_repository broken_apt allow_all example_extract)
           [(''stable'', [''main_Sources''])] empty_task = Inl (KeyError ''version'', tf) \<and>
        length (events tf) = 6 \<and>
        source_package_names (db tf) = [''pkg-a'', ''pkg-d''] \<and>
        map re_id (repository_entries (db tf)) = [1]"
  by (simp add: run_defs broken_apt_def broken_files_def allow_all_def example_extract_def
      example_stanza_def empty_task_def empty_store_def Let_def)

lemma broken_run:
  "execute broken_apt allow_all example_extract False empty_task =
     Inl (KeyError ''version'', empty_task\<lparr>all_repository_entries := [1]\<rparr>)"
  by (simp add: execute_def clear_all_events_on_exception_def execute_body_def
      commit_on_success_def repository_files_of_def run_defs broken_apt_def broken_files_def
      allow_all_def example_extract_def example_stanza_def empty_task_def empty_store_def Let_def)

theorem execute_atomic_witness:
  "execute broken_apt allow_all example_extract False empty_task =
     Inl (KeyError ''version'', empty_task\<lparr>all_repository_entries := [1]\<rparr>) \<and>
   events (empty_task\<lparr>all_repository_entries := [1]\<rparr>) = [] \<and>
   db (empty_task\<lparr>all_repository_entries := [1]\<rparr>) = db empty_task \<and>
   (\<exists>tf. for_each (process_repository broken_apt allow_all example_extract)
           [(''stable'', [''main_Sources''])] empty_task = Inl (KeyError ''version'', tf) \<and>
        length (events tf) = 6 \<and>
        source_package_names (db tf) = [''pkg-a'', ''pkg-d''] \<and>
        map re_id (repository_entries (db tf)) = [1])"
  using execute_atomic [OF broken_run] broken_run broken_run_body by blast

section \<open>Two stanzas of one name in a listing\<close>




section \<open>Properties of the update of the pseudo package list\<close>

lemma save_package_name_map:
  assumes "distinct (map pn_id ps)" and "p \<in> set ps" and "pn_id p' = pn_id p"
  shows "map (\<lambda>q. if pn_id q = pn_id p' then p' else q) ps =
         map (\<lambda>q. if q = p then p' else q) ps"
proof (rule map_cong [OF refl])
  fix q
  assume "q \<in> set ps"
  with assms have "pn_id q = pn_id p \<longleftrightarrow> q = p"
    by (auto simp: distinct_map inj_on_def)
  with assms(3) show "(if pn_id q = pn_id p' then p' else q) = (if q = p then p' else q)"
    by simp
qed

text \<open>
  The first loop, run over rows \<open>ps\<close> of the table with distinct names: the rows of \<open>ps\<close>
  whose name is not in the set are demoted, nothing else changes, and the names of \<open>ps\<close>
  leave the set.
\<close>

lemma demote_loop_result:
  assumes "distinct (map pn_id (package_names s))" and "distinct (map pn_name ps)"
    and "set ps \<subseteq> set (package_names s)"
  shows "package_names (snd (demote_loop ps L s)) =
           map (\<lambda>q. if q \<in> set ps \<and> pn_name q \<notin> set L
                    then q\<lparr>package_type := SubscriptionOnlyPackageType\<rparr> else q)
             (package_names s) \<and>
         next_package_name_id (snd (demote_loop ps L s)) = next_package_name_id s \<and>
         fst (demote_loop ps L s) = [n \<leftarrow> L. n \<notin> pn_name ` set ps]"
  using assms
proof (induction ps arbitrary: L s)
  case Nil
  then show ?case by (simp add: map_idI)
next
  case (Cons p rest)
  have pin: "p \<in> set (package_names s)" using Cons.prems(3) by simp
  have pnot: "pn_name p \<notin> pn_name ` set rest" using Cons.prems(2) by simp
  have pr: "\<forall>q \<in> set rest. pn_name q \<noteq> pn_name p"
  proof
    fix q assume "q \<in> set rest"
    then have "pn_name q \<in> pn_name ` set rest" by (rule imageI)
    with pnot show "pn_name q \<noteq> pn_name p" by auto
  qed
  have dr: "distinct (map pn_name rest)" using Cons.prems(2) by simp
  show ?case
  proof (cases "pn_name p \<in> set L")
    case True
    have sub: "set rest \<subseteq> set (package_names s)" using Cons.prems(3) by simp
    note ih = Cons.IH [OF Cons.prems(1) dr sub, of "removeAll (pn_name p) L"]
    have m: "map (\<lambda>q. if q \<in> set rest \<and> pn_name q \<notin> set (removeAll (pn_name p) L)
                    then q\<lparr>package_type := SubscriptionOnlyPackageType\<rparr> else q)
               (package_names s) =
             map (\<lambda>q. if q \<in> set (p # rest) \<and> pn_name q \<notin> set L
                    then q\<lparr>package_type := SubscriptionOnlyPackageType\<rparr> else q)
               (package_names s)"
      using True pr by (intro map_cong [OF refl]) auto
    have f: "[n \<leftarrow> removeAll (pn_name p) L. n \<notin> pn_name ` set rest] =
             [n \<leftarrow> L. n \<notin> pn_name ` set (p # rest)]"
      by (induction L) auto
    show ?thesis using True ih m f by simp
  next
    case False
    let ?p' = "p\<lparr>package_type := SubscriptionOnlyPackageType\<rparr>"
    let ?s = "save_package_name ?p' s"
    have names: "package_names ?s = map (\<lambda>q. if q = p then ?p' else q) (package_names s)"
      using save_package_name_map [OF Cons.prems(1) pin, of ?p']
      by (simp add: save_package_name_def)
    have ids: "distinct (map pn_id (package_names ?s))"
    proof -
      have "map pn_id (package_names ?s) = map pn_id (package_names s)"
        unfolding names by (induction "package_names s") auto
      then show ?thesis using Cons.prems(1) by simp
    qed
    have sub: "set rest \<subseteq> set (package_names ?s)"
    proof
      fix q assume q: "q \<in> set rest"
      then have "q \<noteq> p" using pr by auto
      moreover have "q \<in> set (package_names s)" using q Cons.prems(3) by auto
      ultimately show "q \<in> set (package_names ?s)" unfolding names by auto
    qed
    note ih = Cons.IH [OF ids dr sub, of L]
    have p'rest: "?p' \<notin> set rest" using pr by auto
    have m: "map (\<lambda>q. if q \<in> set rest \<and> pn_name q \<notin> set L
                    then q\<lparr>package_type := SubscriptionOnlyPackageType\<rparr> else q)
               (package_names ?s) =
             map (\<lambda>q. if q \<in> set (p # rest) \<and> pn_name q \<notin> set L
                    then q\<lparr>package_type := SubscriptionOnlyPackageType\<rparr> else q)
               (package_names s)"
      unfolding names map_map
      using False p'rest by (intro map_cong [OF refl]) auto
    have f: "[n \<leftarrow> L. n \<notin> pn_name ` set rest] = [n \<leftarrow> L. n \<notin> pn_name ` set (p # rest)]"
      using False by (intro filter_cong [OF refl]) auto
    have nx: "next_package_name_id ?s = next_package_name_id s"
      by (simp add: save_package_name_def)
    show ?thesis using False ih m f nx by simp
  qed
qed

text \<open>The second loop never touches the rows that are there, whether it ends or raises.\<close>

lemma create_loop_prefix:
  "take (length (package_names s)) (package_names (table_after (create_loop ns s))) =
     package_names s"
proof (induction ns arbitrary: s)
  case Nil
  then show ?case by (simp add: table_after_def)
next
  case (Cons n ns)
  show ?case
  proof (cases "list_ex (\<lambda>p. pn_name p = n) (package_names s)")
    case True
    then show ?thesis by (simp add: create_pseudo_package_name_def table_after_def)
  next
    case False
    let ?s = "s\<lparr>package_names := package_names s @
                   [\<lparr>pn_id = next_package_name_id s, pn_name = n,
                     package_type = PseudoPackageType\<rparr>],
                 next_package_name_id := Suc (next_package_name_id s)\<rparr>"
    have c: "create_loop (n # ns) s = create_loop ns ?s"
      using False by (simp add: create_pseudo_package_name_def)
    have "take (length (package_names s)) (package_names (table_after (create_loop ns ?s))) =
          take (length (package_names s))
            (take (length (package_names ?s)) (package_names (table_after (create_loop ns ?s))))"
      by (simp add: min_def)
    also have "\<dots> = take (length (package_names s)) (package_names ?s)"
      by (simp only: Cons.IH)
    also have "\<dots> = package_names s" by simp
    finally show ?thesis unfolding c .
  qed
qed

text \<open>With names that no row has, the second loop ends and adds one pseudo package each.\<close>

lemma create_loop_new:
  assumes "distinct ns" and "\<forall>n \<in> set ns. n \<notin> pn_name ` set (package_names s)"
  shows "\<exists>s' new. create_loop ns s = Inr s' \<and> package_names s' = package_names s @ new \<and>
           map pn_name new = ns \<and> (\<forall>p \<in> set new. package_type p = PseudoPackageType)"
  using assms
proof (induction ns arbitrary: s)
  case Nil
  then show ?case by simp
next
  case (Cons n ns)
  let ?row = "\<lparr>pn_id = next_package_name_id s, pn_name = n, package_type = PseudoPackageType\<rparr>"
  let ?s = "s\<lparr>package_names := package_names s @ [?row],
               next_package_name_id := Suc (next_package_name_id s)\<rparr>"
  have "\<not> list_ex (\<lambda>p. pn_name p = n) (package_names s)"
    using Cons.prems(2) by (auto simp: list_ex_iff)
  then have c: "create_loop (n # ns) s = create_loop ns ?s"
    by (simp add: create_pseudo_package_name_def)
  have d: "distinct ns" and nn: "n \<notin> set ns" using Cons.prems(1) by simp_all
  have fresh: "\<forall>m \<in> set ns. m \<notin> pn_name ` set (package_names ?s)"
    using Cons.prems(2) nn by auto
  from Cons.IH [OF d fresh] obtain s' new where
    r: "create_loop ns ?s = Inr s'" "package_names s' = package_names ?s @ new"
       "map pn_name new = ns" "\<forall>p \<in> set new. package_type p = PseudoPackageType"
    by blast
  show ?case
  proof (intro exI conjI)
    show "create_loop (n # ns) s = Inr s'" using c r(1) by simp
    show "package_names s' = package_names s @ (?row # new)" using r(2) by simp
    show "map pn_name (?row # new) = n # ns" using r(3) by simp
    show "\<forall>p \<in> set (?row # new). package_type p = PseudoPackageType" using r(4) by simp
  qed
qed

lemma demoted_table:
  assumes ids: "distinct (map pn_id (package_names s))"
    and names: "distinct (map pn_name (package_names s))"
  shows "package_names
           (snd (demote_loop [p \<leftarrow> package_names s. package_type p = PseudoPackageType]
                   (remdups l) s)) = map (demoted l) (package_names s) \<and>
         fst (demote_loop [p \<leftarrow> package_names s. package_type p = PseudoPackageType]
                (remdups l) s) =
           [n \<leftarrow> remdups l.
              n \<notin> pn_name ` {p \<in> set (package_names s). package_type p = PseudoPackageType}]"
proof -
  let ?ps = "[p \<leftarrow> package_names s. package_type p = PseudoPackageType]"
  have d: "distinct (map pn_name ?ps)" using names by (simp add: distinct_map_filter)
  have sub: "set ?ps \<subseteq> set (package_names s)" by auto
  note r = demote_loop_result [OF ids d sub, of "remdups l"]
  have "map (\<lambda>q. if q \<in> set ?ps \<and> pn_name q \<notin> set (remdups l)
                 then q\<lparr>package_type := SubscriptionOnlyPackageType\<rparr> else q)
          (package_names s) = map (demoted l) (package_names s)"
    by (intro map_cong [OF refl]) (auto simp: demoted_def)
  then show ?thesis using r by simp
qed

lemma pn_name_demoted: "pn_name (demoted l p) = pn_name p"
  by (simp add: demoted_def)

lemma update_pseudo_package_list_loops:
  "update_pseudo_package_list (VendorReturns (Some l) True) s =
     create_loop
       (fst (demote_loop [p \<leftarrow> package_names s. package_type p = PseudoPackageType] (remdups l) s))
       (snd (demote_loop [p \<leftarrow> package_names s. package_type p = PseudoPackageType] (remdups l) s))"
  by (simp add: update_pseudo_package_list_def case_prod_beta)




section \<open>Properties of the command that starts tasks\<close>

lemma run_all_names: "map fst (fst (run_all run_task additional_arguments args w)) = args"
proof (induction args arbitrary: w)
  case Nil
  then show ?case by simp
next
  case (Cons n ns)
  obtain outcome w' where r: "run_task n additional_arguments w = (outcome, w')"
    by (cases "run_task n additional_arguments w")
  obtain outcomes w'' where s: "run_all run_task additional_arguments ns w' = (outcomes, w'')"
    by (cases "run_all run_task additional_arguments ns w'")
  from Cons.IH [of w'] s have "map fst outcomes = ns" by simp
  then show ?case using r s by simp
qed

lemma report_silent: "concat (map (report False) outcomes) = []"
proof (induction outcomes)
  case Nil
  then show ?case by simp
next
  case (Cons a outcomes)
  obtain n outcome where a: "a = (n, outcome)" by (cases a)
  show ?case using Cons a by (cases outcome) simp_all
qed

lemma handle_loop_run_all:
  assumes "\<forall>n \<in> set args. decode n = Inr n"
  shows "handle_loop run_task verbose additional_arguments args (out, w) =
           Inr (out @ concat (map (report verbose)
                                (fst (run_all run_task additional_arguments args w))),
                snd (run_all run_task additional_arguments args w))"
  using assms
proof (induction args arbitrary: out w)
  case Nil
  then show ?case by simp
next
  case (Cons n ns)
  obtain outcome w' where r: "run_task n additional_arguments w = (outcome, w')"
    by (cases "run_task n additional_arguments w")
  have d: "decode n = Inr n" and rest: "\<forall>m \<in> set ns. decode m = Inr m"
    using Cons.prems by simp_all
  note ih = Cons.IH [OF rest]
  show ?case
  proof (cases outcome)
    case None
    then show ?thesis using d r ih [of out w'] by (simp split: prod.splits)
  next
    case (Some err)
    then show ?thesis
      using d r ih [of "if verbose then out @ [Write (n @ '' failed!''), PrintExc err] else out" w']
      by (simp split: prod.splits)
  qed
qed

text \<open>
  C8, as stated, fails. A name that is not well-formed UTF-8 makes the decoding raise
  outside the \<open>try\<close>: the command ends there with that error, the name after it is never
  run (the world's log stays empty), and nothing is printed although verbose output was
  requested.
\<close>

theorem handle_counterexample:
  "handle logging_run_task (Some 2) False [[CHR 0xFF], ''UpdateRepositoriesTask''] ([], []) =
     Inl (UnicodeDecodeError, [], [])"
  by (simp add: handle_def decode_def)

text \<open>
  C8, amended. For every list of requested task names that are well-formed UTF-8, the
  command returns, having run every name once and in order, each on the world that the
  names before it left, whether or not they raised; what it prints is, for each name whose
  run raised, the name followed by \<open>failed!\<close> and the trace of the exception when verbose
  output is requested (a verbosity above 1), and nothing at all when it is not.
\<close>

theorem handle_runs_every_task:
  assumes "\<forall>n \<in> set args. utf8_valid (map of_char n)"
  shows "\<exists>outcomes w'.
           run_all run_task (if force then Some [(''force_update'', True)] else None) args w =
             (outcomes, w') \<and>
           map fst outcomes = args \<and>
           handle run_task verbosity force args (out, w) =
             Inr (out @ concat (map (report (1 < (case verbosity of None \<Rightarrow> 1 | Some v \<Rightarrow> v)))
                                  outcomes), w') \<and>
           (\<not> 1 < (case verbosity of None \<Rightarrow> 1 | Some v \<Rightarrow> v) \<longrightarrow>
              handle run_task verbosity force args (out, w) = Inr (out, w'))"
proof -
  let ?a = "if force then Some [(''force_update'', True)] else None"
  let ?v = "1 < (case verbosity of None \<Rightarrow> 1 | Some v \<Rightarrow> v)"
  obtain outcomes w' where r: "run_all run_task ?a args w = (outcomes, w')"
    by (cases "run_all run_task ?a args w")
  have dec: "\<forall>n \<in> set args. decode n = Inr n"
    using assms by (simp add: decode_def)
  have names: "map fst outcomes = args"
    using run_all_names [of run_task ?a args w] r by simp
  have h: "handle run_task verbosity force args (out, w) =
             Inr (out @ concat (map (report ?v) outcomes), w')"
    using handle_loop_run_all [OF dec, of run_task ?v ?a out w] r
    by (simp add: handle_def Let_def)
  have q: "\<not> ?v \<longrightarrow> handle run_task verbosity force args (out, w) = Inr (out, w')"
    using h report_silent [of outcomes] by auto
  show ?thesis using r names h q by blast
qed

theorem handle_runs_every_task_witness:
  "handle logging_run_task (Some 2) False [''Broken'', ''UpdateRepositoriesTask''] ([], []) =
     Inr ([Write ''Broken failed!'', PrintExc (OtherError ''task failed'')],
          [''Broken'', ''UpdateRepositoriesTask'']) \<and>
   handle logging_run_task (Some 1) False [''Broken'', ''UpdateRepositoriesTask''] ([], []) =
     Inr ([], [''Broken'', ''UpdateRepositoriesTask''])"
proof -
  have v: "\<forall>n \<in> set [''Broken'', ''UpdateRepositoriesTask'']. utf8_valid (map of_char n)"
    by simp
  have r: "run_all logging_run_task None [''Broken'', ''UpdateRepositoriesTask''] [] =
             ([(''Broken'', Some (OtherError ''task failed'')), (''UpdateRepositoriesTask'', None)],
              [''Broken'', ''UpdateRepositoriesTask''])"
    by (simp add: logging_run_task_def)
  from handle_runs_every_task [OF v, of logging_run_task False "[]" "Some 2" "[]"] r
  have a: "handle logging_run_task (Some 2) False [''Broken'', ''UpdateRepositoriesTask''] ([], []) =
     Inr ([Write ''Broken failed!'', PrintExc (OtherError ''task failed'')],
          [''Broken'', ''UpdateRepositoriesTask''])"
    by simp
  from handle_runs_every_task [OF v, of logging_run_task False "[]" "Some 1" "[]"] r
  have b: "handle logging_run_task (Some 1) False [''Broken'', ''UpdateRepositoriesTask''] ([], []) =
     Inr ([], [''Broken'', ''UpdateRepositoriesTask''])"
    by simp
  from a b show ?thesis by simp
qed

end
